theory Spec2Isabelle
  imports
    Complex_Main
    "HOL-Library.Char_ord"
    "HOL-Library.List_Lexorder"
    "HOL-Library.Product_Lexorder"
begin

section \<open>The COVID-19 dashboard ETL (\<^verbatim>\<open>covid_dash_app/etl.py\<close>)\<close>

text \<open>
  The module downloads three wide CSV tables, reshapes each into a long table
  (\<^verbatim>\<open>clean_data\<close>), aggregates per country and date (\<^verbatim>\<open>country_data\<close>), derives the
  daily differences (\<^verbatim>\<open>daily_data\<close>), joins everything into one consolidated table and
  reads the date of the last upstream commit. The public entry point
  \<^verbatim>\<open>get_datasets\<close> is wrapped in \<^verbatim>\<open>cache.memoize(timeout=360)\<close>.

  The embedding follows the module function by function. A pandas data frame is a list
  of column labels and a list of rows, every row carrying its index label and its cells.
  Case counts are integers or missing (\<open>NaN\<close>); the consolidated table is a
  \<^verbatim>\<open>float64\<close> table whose cells are exact rationals, \<open>NaN\<close> or an infinity. Integers
  are exact in \<^verbatim>\<open>float64\<close> below \<open>2 ^ 53\<close>, which is the range assumed for counts.
  Python exceptions are values of the type \<open>error\<close>, returned as \<open>Inl\<close>.
\<close>

subsection \<open>Cells\<close>

datatype cell = Num int | NaN

datatype error =
    URLError
  | HTTPError nat
  | ParserError
  | JSONDecodeError
  | IndexError
  | KeyError string
  | TypeError
  | ValueError

text \<open>Arithmetic on a numeric column propagates missing values.\<close>

fun add_cell :: "cell \<Rightarrow> cell \<Rightarrow> cell" where
  "add_cell (Num a) (Num b) = Num (a + b)"
| "add_cell _ _ = NaN"

fun sub_cell :: "cell \<Rightarrow> cell \<Rightarrow> cell" where
  "sub_cell (Num a) (Num b) = Num (a - b)"
| "sub_cell _ _ = NaN"

text \<open>\<^verbatim>\<open>Series.sum()\<close> skips missing values; the sum of no value at all is 0.\<close>

fun sum_skipna :: "cell list \<Rightarrow> int" where
  "sum_skipna [] = 0"
| "sum_skipna (Num a # cs) = a + sum_skipna cs"
| "sum_skipna (NaN # cs) = sum_skipna cs"

text \<open>\<^verbatim>\<open>fillna(v)\<close> on one cell.\<close>

fun fillna_cell :: "int \<Rightarrow> cell \<Rightarrow> cell" where
  "fillna_cell v NaN = Num v"
| "fillna_cell v (Num a) = Num a"

subsection \<open>Tables\<close>

text \<open>
  The raw table read from a CSV file: the four identifying columns
  \<^verbatim>\<open>Province/State\<close>, \<^verbatim>\<open>Country/Region\<close>, \<^verbatim>\<open>Lat\<close>, \<^verbatim>\<open>Long\<close>, then one column
  per date. An empty CSV field is a missing value (\<open>None\<close>, \<open>NaN\<close>). A data frame is
  rectangular: every row of a raw table has one value per date column.
\<close>

record id_vars =
  province_state :: "string option"
  country_region :: "string option"
  lat :: "rat option"
  long :: "rat option"

record raw_row =
  raw_ids :: id_vars
  vals :: "cell list"

record raw_table =
  date_columns :: "string list"
  raw_rows :: "raw_row list"

text \<open>The long table made by \<^verbatim>\<open>melt\<close>: columns \<^verbatim>\<open>Date\<close> and \<^verbatim>\<open>Cases\<close> added.\<close>

record long_row =
  long_ids :: id_vars
  date :: string
  cases :: cell

type_synonym long_table = "long_row list"

text \<open>
  An indexed data frame: column labels, and rows of an index label with one cell per
  column. The country tables are indexed by (country, date).
\<close>

record ('k, 'v) frame =
  columns :: "string list"
  rows :: "('k \<times> 'v list) list"

definition wf_frame :: "('k, 'v) frame \<Rightarrow> bool" where
  "wf_frame f = list_all (\<lambda>r. length (snd r) = length (columns f)) (rows f)"

subsection \<open>\<^verbatim>\<open>clean_data\<close>\<close>

text \<open>
  \<^verbatim>\<open>df_raw.melt(id_vars=[...], value_name="Cases", var_name="Date")\<close>: every column
  that is not an identifying column is unpivoted, column after column, the rows in
  their order inside each column.
\<close>

definition clean_data :: "raw_table \<Rightarrow> long_table" where
  "clean_data df_raw =
     concat (map (\<lambda>j. map (\<lambda>r. \<lparr>long_ids = raw_ids r,
                                  date = date_columns df_raw ! j,
                                  cases = vals r ! j\<rparr>) (raw_rows df_raw))
                 [0..<length (date_columns df_raw)])"

subsection \<open>\<^verbatim>\<open>key_to_case_type\<close>\<close>

text \<open>Python's \<^verbatim>\<open>sub in s\<close> on strings.\<close>

fun is_substring :: "string \<Rightarrow> string \<Rightarrow> bool" where
  "is_substring sub [] = (sub = [])"
| "is_substring sub (c # s) = (take (length sub) (c # s) = sub \<or> is_substring sub s)"

definition key_to_case_type :: "string \<Rightarrow> string" where
  "key_to_case_type key =
     (if is_substring ''confirmed'' key then ''Confirmed''
      else if is_substring ''deaths'' key then ''Deaths''
      else if is_substring ''recovered'' key then ''Recovered''
      else ''Unknown'')"

subsection \<open>\<^verbatim>\<open>country_data\<close>\<close>

text \<open>
  \<^verbatim>\<open>groupby(["Country/Region", "Date"])["Cases"].sum()\<close>: rows whose country is
  missing are dropped, the group keys are the distinct (country, date string) pairs in
  ascending order, and each group's value is the sum of its non-missing cases.
\<close>

definition group_key :: "long_row \<Rightarrow> (string \<times> string) option" where
  "group_key r = map_option (\<lambda>c. (c, date r)) (country_region (long_ids r))"

definition group_keys :: "long_table \<Rightarrow> (string \<times> string) list" where
  "group_keys df = sort (remdups (List.map_filter group_key df))"

definition group_cases :: "long_table \<Rightarrow> string \<times> string \<Rightarrow> cell list" where
  "group_cases df k = map cases (filter (\<lambda>r. group_key r = Some k) df)"

definition groupby_sum :: "long_table \<Rightarrow> ((string \<times> string) \<times> cell) list" where
  "groupby_sum df = map (\<lambda>k. (k, Num (sum_skipna (group_cases df k)))) (group_keys df)"

text \<open>\<^verbatim>\<open>rename(columns={oldname: newname})\<close>.\<close>

definition rename_columns :: "string \<Rightarrow> string \<Rightarrow> ('k, 'v) frame \<Rightarrow> ('k, 'v) frame" where
  "rename_columns oldname newname f =
     f\<lparr>columns := map (\<lambda>c. if c = oldname then newname else c) (columns f)\<rparr>"

text \<open>
  The grouped series becomes a frame indexed by (country, date string). The second
  index level, the sorted distinct date strings, is replaced by its image under
  \<^verbatim>\<open>pd.to_datetime\<close>, which is a parameter here: \<open>None\<close> is a string it rejects
  (it raises). \<^verbatim>\<open>set_levels\<close> checks that the new level values are unique and raises
  \<^verbatim>\<open>ValueError\<close> otherwise. Then \<^verbatim>\<open>sort_values\<close> orders the rows by country and
  parsed date, and the column \<^verbatim>\<open>Cases\<close> is renamed.
\<close>

definition date_level :: "((string \<times> string) \<times> cell) list \<Rightarrow> string list" where
  "date_level grouped = sort (remdups (map (\<lambda>r. snd (fst r)) grouped))"

definition relabel_row ::
  "(string \<Rightarrow> 'd option) \<Rightarrow> (string \<times> string) \<times> cell \<Rightarrow> ((string \<times> 'd) \<times> cell list) option" where
  "relabel_row to_datetime r =
     map_option (\<lambda>d. ((fst (fst r), d), [snd r])) (to_datetime (snd (fst r)))"

definition country_data ::
  "(string \<Rightarrow> 'd::linorder option) \<Rightarrow> long_table \<Rightarrow> string \<Rightarrow> string
     \<Rightarrow> error + (string \<times> 'd, cell) frame" where
  "country_data to_datetime df_cleaned oldname newname =
     (let grouped = groupby_sum df_cleaned in
      case those (map to_datetime (date_level grouped)) of
        None \<Rightarrow> Inl ParserError
      | Some parsed \<Rightarrow>
          if \<not> distinct parsed then Inl ValueError
          else (case those (map (relabel_row to_datetime) grouped) of
                  None \<Rightarrow> Inl ParserError
                | Some rs \<Rightarrow>
                    Inr (rename_columns oldname newname
                          \<lparr>columns = [''Cases''], rows = sort_key fst rs\<rparr>)))"

subsection \<open>\<^verbatim>\<open>daily_data\<close>\<close>

text \<open>
  \<^verbatim>\<open>groupby(level=0).diff()\<close>: every row is compared with the previous row of the
  same country, in the order of the rows; the first row of a country has no previous
  row and gets missing values. The result keeps the index and the order of the input.
  The argument \<open>prev\<close> holds, per country, the cells of the last row seen.
\<close>

fun groupby_diff ::
  "(string \<Rightarrow> cell list option) \<Rightarrow> ((string \<times> 'd) \<times> cell list) list
     \<Rightarrow> ((string \<times> 'd) \<times> cell list) list" where
  "groupby_diff prev [] = []"
| "groupby_diff prev (r # rs) =
     (fst r, (case prev (fst (fst r)) of
                None \<Rightarrow> map (\<lambda>_. NaN) (snd r)
              | Some ps \<Rightarrow> map2 sub_cell (snd r) ps))
     # groupby_diff (prev(fst (fst r) \<mapsto> snd r)) rs"

definition fillna :: "int \<Rightarrow> ('k, cell) frame \<Rightarrow> ('k, cell) frame" where
  "fillna v f = f\<lparr>rows := map (\<lambda>r. (fst r, map (fillna_cell v) (snd r))) (rows f)\<rparr>"

definition daily_data ::
  "(string \<times> 'd, cell) frame \<Rightarrow> string \<Rightarrow> string \<Rightarrow> (string \<times> 'd, cell) frame" where
  "daily_data dfcountry oldname newname =
     rename_columns oldname newname
       (fillna 0 (dfcountry\<lparr>rows := groupby_diff Map.empty (rows dfcountry)\<rparr>))"

subsection \<open>The consolidated table\<close>

text \<open>
  \<^verbatim>\<open>pd.merge(left, right, how="left", left_index=True, right_index=True)\<close>: every
  row of the left frame is kept, in order; it is extended by the cells of each right row
  with the same index label, or by missing values when the right frame has no such row.
  Column labels that occur on both sides get the suffixes \<^verbatim>\<open>_x\<close> and \<^verbatim>\<open>_y\<close>.
\<close>

definition merge_columns :: "string list \<Rightarrow> string list \<Rightarrow> string list" where
  "merge_columns ls rs =
     map (\<lambda>c. if c \<in> set rs then c @ ''_x'' else c) ls
     @ map (\<lambda>c. if c \<in> set ls then c @ ''_y'' else c) rs"

definition merge_row :: "('k, cell) frame \<Rightarrow> 'k \<times> cell list \<Rightarrow> ('k \<times> cell list) list" where
  "merge_row right l =
     (case filter (\<lambda>r. fst r = fst l) (rows right) of
        [] \<Rightarrow> [(fst l, snd l @ map (\<lambda>_. NaN) (columns right))]
      | ms \<Rightarrow> map (\<lambda>r. (fst l, snd l @ snd r)) ms)"

definition merge_left :: "('k, cell) frame \<Rightarrow> ('k, cell) frame \<Rightarrow> ('k, cell) frame" where
  "merge_left left right =
     \<lparr>columns = merge_columns (columns left) (columns right),
      rows = concat (map (merge_row right) (rows left))\<rparr>"

text \<open>
  The cells of a \<^verbatim>\<open>float64\<close> column. Division follows pandas: a zero denominator
  gives an infinity with the sign of the numerator, or \<open>NaN\<close> for 0 / 0; nothing raises.
  Signed zeros are not distinguished.
\<close>

datatype fl = Fin rat | FNaN | PInf | NInf

fun to_float :: "cell \<Rightarrow> fl" where
  "to_float (Num a) = Fin (of_int a)"
| "to_float NaN = FNaN"

fun fneg :: "fl \<Rightarrow> fl" where
  "fneg (Fin a) = Fin (- a)"
| "fneg FNaN = FNaN"
| "fneg PInf = NInf"
| "fneg NInf = PInf"

fun fadd :: "fl \<Rightarrow> fl \<Rightarrow> fl" where
  "fadd (Fin a) (Fin b) = Fin (a + b)"
| "fadd FNaN _ = FNaN"
| "fadd _ FNaN = FNaN"
| "fadd PInf NInf = FNaN"
| "fadd NInf PInf = FNaN"
| "fadd PInf _ = PInf"
| "fadd _ PInf = PInf"
| "fadd NInf _ = NInf"
| "fadd _ NInf = NInf"

definition fsub :: "fl \<Rightarrow> fl \<Rightarrow> fl" where
  "fsub a b = fadd a (fneg b)"

fun fdiv :: "fl \<Rightarrow> fl \<Rightarrow> fl" where
  "fdiv (Fin a) (Fin b) =
     (if b = 0 then (if a = 0 then FNaN else if 0 < a then PInf else NInf)
      else Fin (a / b))"
| "fdiv FNaN _ = FNaN"
| "fdiv _ FNaN = FNaN"
| "fdiv (Fin a) _ = Fin 0"
| "fdiv PInf (Fin b) = (if b < 0 then NInf else PInf)"
| "fdiv NInf (Fin b) = (if b < 0 then PInf else NInf)"
| "fdiv _ _ = FNaN"

text \<open>
  \<^verbatim>\<open>np.round(x, k)\<close>: scale by \<open>10 ^ k\<close>, round to the nearest integer with ties to
  the even one, scale back. \<open>NaN\<close> and the infinities are unchanged.
\<close>

definition round_half_even :: "rat \<Rightarrow> int" where
  "round_half_even q =
     (let f = \<lfloor>q\<rfloor>; d = q - of_int f in
      if d < 1 / 2 then f
      else if 1 / 2 < d then f + 1
      else if even f then f else f + 1)"

fun np_round :: "nat \<Rightarrow> fl \<Rightarrow> fl" where
  "np_round k (Fin q) = Fin (of_int (round_half_even (q * 10 ^ k)) / 10 ^ k)"
| "np_round k x = x"

text \<open>
  \<^verbatim>\<open>df[name]\<close> raises \<^verbatim>\<open>KeyError\<close> for an unknown label;
  \<^verbatim>\<open>df[name] = values\<close> replaces the column or appends a new one. The values come
  from columns of the same frame, so they are assigned row by row. Where a label is
  repeated, the first column of that label is meant.
\<close>

fun index_of :: "'a \<Rightarrow> 'a list \<Rightarrow> nat option" where
  "index_of a [] = None"
| "index_of a (x # xs) = (if x = a then Some 0 else map_option Suc (index_of a xs))"

definition getitem :: "('k, 'v) frame \<Rightarrow> string \<Rightarrow> error + 'v list" where
  "getitem df name =
     (case index_of name (columns df) of
        None \<Rightarrow> Inl (KeyError name)
      | Some j \<Rightarrow> Inr (map (\<lambda>r. snd r ! j) (rows df)))"

definition setitem :: "('k, 'v) frame \<Rightarrow> string \<Rightarrow> 'v list \<Rightarrow> ('k, 'v) frame" where
  "setitem df name vs =
     (case index_of name (columns df) of
        None \<Rightarrow> \<lparr>columns = columns df @ [name],
                  rows = map2 (\<lambda>r v. (fst r, snd r @ [v])) (rows df) vs\<rparr>
      | Some j \<Rightarrow> \<lparr>columns = columns df,
                    rows = map2 (\<lambda>r v. (fst r, (snd r)[j := v])) (rows df) vs\<rparr>)"

definition astype_float :: "('k, cell) frame \<Rightarrow> ('k, fl) frame" where
  "astype_float df =
     \<lparr>columns = columns df, rows = map (\<lambda>r. (fst r, map to_float (snd r))) (rows df)\<rparr>"

text \<open>Sequencing of computations that may raise.\<close>

definition and_then :: "error + 'a \<Rightarrow> ('a \<Rightarrow> error + 'b) \<Rightarrow> error + 'b" where
  "and_then m f = (case m of Inl e \<Rightarrow> Inl e | Inr x \<Rightarrow> f x)"

text \<open>
  Lines 82 to 129 of \<^verbatim>\<open>get_datasets\<close>: the confirmed country table is merged with
  the tables of \<open>rights\<close>, one \<^verbatim>\<open>pd.merge\<close> after the other, and three columns
  are derived, each from the columns the frame has at that point.
\<close>

definition derive_columns :: "('k, fl) frame \<Rightarrow> error + ('k, fl) frame" where
  "derive_columns df =
     and_then (getitem df ''Total Confirmed'') (\<lambda>tc.
     and_then (getitem df ''Total Deaths'') (\<lambda>td.
     and_then (getitem df ''Total Recovered'') (\<lambda>tr.
       let df1 = setitem df ''Total Active Cases'' (map2 fsub (map2 fsub tc td) tr) in
     and_then (getitem df1 ''Total Recovered'') (\<lambda>tr1.
     and_then (getitem df1 ''Total Recovered'') (\<lambda>tr2.
     and_then (getitem df1 ''Total Deaths'') (\<lambda>td1.
       let df2 = setitem df1 ''Share of Recovered - Closed Cases''
                   (map (np_round 2) (map2 fdiv tr1 (map2 fadd tr2 td1))) in
     and_then (getitem df2 ''Total Deaths'') (\<lambda>td2.
     and_then (getitem df2 ''Total Confirmed'') (\<lambda>tc2.
       Inr (setitem df2 ''Death to Cases Ratio''
              (map (np_round 3) (map2 fdiv td2 tc2)))))))))))"

definition consolidate ::
  "('k, cell) frame \<Rightarrow> ('k, cell) frame list \<Rightarrow> error + ('k, fl) frame" where
  "consolidate confirmed rights =
     derive_columns (astype_float (foldl merge_left confirmed rights))"

subsection \<open>Dictionaries and strings\<close>

text \<open>
  A Python \<^verbatim>\<open>dict\<close> keeps its keys in insertion order: an association list with
  distinct keys. \<^verbatim>\<open>d[k] = v\<close> overwrites in place or appends, \<^verbatim>\<open>d[k]\<close> raises
  \<^verbatim>\<open>KeyError\<close> for an unknown key, \<^verbatim>\<open>{**a, **b}\<close> stores the items of \<open>b\<close>
  into a copy of \<open>a\<close>.
\<close>

type_synonym 'a dict = "(string \<times> 'a) list"

fun dict_set :: "'a dict \<Rightarrow> string \<Rightarrow> 'a \<Rightarrow> 'a dict" where
  "dict_set [] k v = [(k, v)]"
| "dict_set (kv # d) k v = (if fst kv = k then (k, v) # d else kv # dict_set d k v)"

definition dict_get :: "'a dict \<Rightarrow> string \<Rightarrow> error + 'a" where
  "dict_get d k = (case map_of d k of None \<Rightarrow> Inl (KeyError k) | Some v \<Rightarrow> Inr v)"

definition dict_update :: "'a dict \<Rightarrow> 'a dict \<Rightarrow> 'a dict" where
  "dict_update a b = foldl (\<lambda>d kv. dict_set d (fst kv) (snd kv)) a b"

text \<open>\<^verbatim>\<open>s.replace(old, new)\<close>: all occurrences, left to right, not overlapping.\<close>

function py_replace :: "string \<Rightarrow> string \<Rightarrow> string \<Rightarrow> string" where
  "py_replace old new [] = (if old = [] then new else [])"
| "py_replace old new (c # s) =
     (if old = [] then new @ c # py_replace old new s
      else if take (length old) (c # s) = old
           then new @ py_replace old new (drop (length old) (c # s))
           else c # py_replace old new s)"
  by pat_completeness auto
termination
  by (relation "measure (\<lambda>(old, new, s). length s)") auto

subsection \<open>The dataset identifiers and the remote resources\<close>

definition TS_COVID19_CONFIRMED_GLOBAL :: string where
  "TS_COVID19_CONFIRMED_GLOBAL = ''time_series_covid19_confirmed_global''"

definition TS_COVID19_DEATHS_GLOBAL :: string where
  "TS_COVID19_DEATHS_GLOBAL = ''time_series_covid19_deaths_global''"

definition TS_COVID19_RECOVERED_GLOBAL :: string where
  "TS_COVID19_RECOVERED_GLOBAL = ''time_series_covid19_recovered_global''"

definition TS_COVID19_CONFIRMED_COUNTRY :: string where
  "TS_COVID19_CONFIRMED_COUNTRY = ''time_series_covid19_confirmed_country''"

definition TS_COVID19_DEATHS_COUNTRY :: string where
  "TS_COVID19_DEATHS_COUNTRY = ''time_series_covid19_deaths_country''"

definition TS_COVID19_RECOVERED_COUNTRY :: string where
  "TS_COVID19_RECOVERED_COUNTRY = ''time_series_covid19_recovered_country''"

definition TS_COVID19_DAILY_NEW_CONFIRMED_COUNTRY :: string where
  "TS_COVID19_DAILY_NEW_CONFIRMED_COUNTRY = ''time_series_covid19_daily_new_confirmed_country''"

definition TS_COVID19_DAILY_NEW_DEATHS_COUNTRY :: string where
  "TS_COVID19_DAILY_NEW_DEATHS_COUNTRY = ''time_series_covid19_daily_new_deaths_country''"

definition TS_COVID19_DAILY_NEW_RECOVERED_COUNTRY :: string where
  "TS_COVID19_DAILY_NEW_RECOVERED_COUNTRY = ''time_series_covid19_daily_new_recovered_country''"

definition TS_COVID19_CONSOLIDATED_COUNTRY :: string where
  "TS_COVID19_CONSOLIDATED_COUNTRY = ''time_series_covid19_consolidated_country''"

definition TS_COVID19_ACTIVE_CASES_COUNTRY :: string where
  "TS_COVID19_ACTIVE_CASES_COUNTRY = ''time_series_covid19_active_cases_country''"

definition csse_time_series :: string where
  "csse_time_series =
     ''https://raw.githubusercontent.com/CSSEGISandData/COVID-19/master/csse_covid_19_data/csse_covid_19_time_series/''"

definition cssegis_data :: "(string \<times> string) list" where
  "cssegis_data =
     [(TS_COVID19_CONFIRMED_GLOBAL, csse_time_series @ ''time_series_covid19_confirmed_global.csv''),
      (TS_COVID19_DEATHS_GLOBAL, csse_time_series @ ''time_series_covid19_deaths_global.csv''),
      (TS_COVID19_RECOVERED_GLOBAL, csse_time_series @ ''time_series_covid19_recovered_global.csv'')]"

definition commits_url :: string where
  "commits_url = ''https://api.github.com/repos/CSSEGISandData/COVID-19/commits''"

subsection \<open>\<^verbatim>\<open>_get_last_commit_date\<close>\<close>

text \<open>
  The remote side is a pair of functions from a URL to what a request for it yields:
  \<open>read_csv\<close> is \<^verbatim>\<open>pd.read_csv(url)\<close>, \<open>load_json\<close> is
  \<^verbatim>\<open>json.loads(urlopen(Request(url)).read().decode("utf-8"))\<close>. Either raises when the
  resource cannot be reached or cannot be parsed.
\<close>

datatype json =
    JNull
  | JBool bool
  | JNumber rat
  | JString string
  | JArray "json list"
  | JObject "(string \<times> json) list"

record world =
  read_csv :: "string \<Rightarrow> error + raw_table"
  load_json :: "string \<Rightarrow> error + json"

text \<open>\<^verbatim>\<open>v[0]\<close> and \<^verbatim>\<open>v[key]\<close> on a decoded JSON value.\<close>

fun subscript_0 :: "json \<Rightarrow> error + json" where
  "subscript_0 (JArray []) = Inl IndexError"
| "subscript_0 (JArray (x # xs)) = Inr x"
| "subscript_0 (JObject kvs) = Inl (KeyError ''0'')"
| "subscript_0 (JString []) = Inl IndexError"
| "subscript_0 (JString (c # cs)) = Inr (JString [c])"
| "subscript_0 _ = Inl TypeError"

fun subscript :: "json \<Rightarrow> string \<Rightarrow> error + json" where
  "subscript (JObject kvs) key =
     (case map_of (rev kvs) key of None \<Rightarrow> Inl (KeyError key) | Some v \<Rightarrow> Inr v)"
| "subscript _ key = Inl TypeError"

definition get_last_commit_date :: "world \<Rightarrow> string \<Rightarrow> error + json" where
  "get_last_commit_date w url =
     and_then (load_json w url) (\<lambda>commit.
     and_then (subscript_0 commit) (\<lambda>c0.
     and_then (subscript c0 ''commit'') (\<lambda>c1.
     and_then (subscript c1 ''committer'') (\<lambda>c2.
       subscript c2 ''date''))))"

subsection \<open>\<^verbatim>\<open>get_datasets\<close>\<close>

datatype 'd table =
    Global long_table
  | Country "(string \<times> 'd, cell) frame"
  | Consolidated "(string \<times> 'd, fl) frame"

record 'd dataset_bundle =
  datasets :: "'d table dict"
  last_update :: json

text \<open>
  The first loop: one \<^verbatim>\<open>pd.read_csv\<close> per resource, in order; the first failure
  ends the loop. The second component lists the URLs requested.
\<close>

fun load_global ::
  "world \<Rightarrow> (string \<times> string) list \<Rightarrow> long_table dict
     \<Rightarrow> (error + long_table dict) \<times> string list" where
  "load_global w [] dfs_global = (Inr dfs_global, [])"
| "load_global w (dat # rest) dfs_global =
     (case read_csv w (snd dat) of
        Inl e \<Rightarrow> (Inl e, [snd dat])
      | Inr df_raw \<Rightarrow>
          (case load_global w rest (dict_set dfs_global (fst dat) (clean_data df_raw)) of
             (res, requested) \<Rightarrow> (res, snd dat # requested)))"

text \<open>The second and third loops, over the items of \<open>dfs_global\<close> and \<open>dfs_country\<close>.\<close>

fun load_country ::
  "(string \<Rightarrow> 'd::linorder option) \<Rightarrow> long_table dict \<Rightarrow> (string \<times> 'd, cell) frame dict
     \<Rightarrow> error + (string \<times> 'd, cell) frame dict" where
  "load_country to_datetime [] dfs_country = Inr dfs_country"
| "load_country to_datetime (item # items) dfs_country =
     and_then (country_data to_datetime (snd item) ''Cases''
                 (''Total '' @ key_to_case_type (fst item))) (\<lambda>df.
       load_country to_datetime items
         (dict_set dfs_country (py_replace ''global'' ''country'' (fst item)) df))"

fun load_daily ::
  "(string \<times> 'd, cell) frame dict \<Rightarrow> (string \<times> 'd, cell) frame dict
     \<Rightarrow> (string \<times> 'd, cell) frame dict" where
  "load_daily [] dfs_daily = dfs_daily"
| "load_daily (item # items) dfs_daily =
     (let case_type = key_to_case_type (fst item);
          old_colname = ''Total '' @ case_type;
          new_colname = ''Daily New '' @ case_type
      in load_daily items
           (dict_set dfs_daily (py_replace ''_covid19_'' ''_covid19_daily_new_'' (fst item))
              (daily_data (snd item) old_colname new_colname)))"

text \<open>
  The right-hand tables of the successive \<^verbatim>\<open>pd.merge\<close> calls, in program order:
  which dictionary each is read from, and under which key.
\<close>

datatype source = From_country | From_daily

definition merge_steps :: "(source \<times> string) list" where
  "merge_steps =
     [(From_daily, TS_COVID19_DAILY_NEW_CONFIRMED_COUNTRY),
      (From_daily, TS_COVID19_DAILY_NEW_DEATHS_COUNTRY),
      (From_country, TS_COVID19_DEATHS_COUNTRY),
      (From_country, TS_COVID19_RECOVERED_COUNTRY),
      (From_daily, TS_COVID19_DAILY_NEW_RECOVERED_COUNTRY)]"

fun lookup_steps ::
  "'a dict \<Rightarrow> 'a dict \<Rightarrow> (source \<times> string) list \<Rightarrow> error + 'a list" where
  "lookup_steps dfs_country dfs_daily [] = Inr []"
| "lookup_steps dfs_country dfs_daily (st # sts) =
     and_then (dict_get (case fst st of From_country \<Rightarrow> dfs_country | From_daily \<Rightarrow> dfs_daily)
                 (snd st)) (\<lambda>df.
     and_then (lookup_steps dfs_country dfs_daily sts) (\<lambda>dfs. Inr (df # dfs)))"

text \<open>
  Lines 67 to 134 of \<^verbatim>\<open>get_datasets\<close>: the country tables, the daily tables, the
  consolidated table under its two identifiers, and the dictionary of all tables.
\<close>

definition transform ::
  "(string \<Rightarrow> 'd::linorder option) \<Rightarrow> long_table dict \<Rightarrow> error + 'd table dict" where
  "transform to_datetime dfs_global =
     and_then (load_country to_datetime dfs_global []) (\<lambda>dfs_country.
       let dfs_daily = load_daily dfs_country [] in
     and_then (dict_get dfs_country TS_COVID19_CONFIRMED_COUNTRY) (\<lambda>confirmed.
     and_then (lookup_steps dfs_country dfs_daily merge_steps) (\<lambda>rights.
     and_then (consolidate confirmed rights) (\<lambda>df_country_consol.
       let dfs_country_consol =
             [(TS_COVID19_ACTIVE_CASES_COUNTRY, Consolidated df_country_consol),
              (TS_COVID19_CONSOLIDATED_COUNTRY, Consolidated df_country_consol)]
       in Inr (dict_update
                 (dict_update
                    (dict_update (map (\<lambda>kv. (fst kv, Global (snd kv))) dfs_global)
                       (map (\<lambda>kv. (fst kv, Country (snd kv))) dfs_country))
                    (map (\<lambda>kv. (fst kv, Country (snd kv))) dfs_daily))
                 dfs_country_consol)))))"

definition get_datasets ::
  "(string \<Rightarrow> 'd::linorder option) \<Rightarrow> world \<Rightarrow> (error + 'd dataset_bundle) \<times> string list" where
  "get_datasets to_datetime w =
     (case load_global w cssegis_data [] of
        (Inl e, requested) \<Rightarrow> (Inl e, requested)
      | (Inr dfs_global, requested) \<Rightarrow>
          (case transform to_datetime dfs_global of
             Inl e \<Rightarrow> (Inl e, requested)
           | Inr tables \<Rightarrow>
               (case get_last_commit_date w commits_url of
                  Inl e \<Rightarrow> (Inl e, requested @ [commits_url])
                | Inr last_src_data_update \<Rightarrow>
                    (Inr \<lparr>datasets = tables, last_update = last_src_data_update\<rparr>,
                     requested @ [commits_url]))))"

subsection \<open>\<^verbatim>\<open>@cache.memoize(timeout=360)\<close>\<close>

text \<open>
  \<^verbatim>\<open>get_datasets\<close> takes no argument, so the decorator keeps one entry: the value
  and the time it expires at. The clock is an argument, in seconds. A call reads the
  entry; a live entry is returned as it is and the function is not run. Otherwise the
  function runs, and its value is stored with the timeout when it returns one; when it
  raises, the exception passes through the decorator and nothing is stored. The
  application configures the filesystem backend (\<^verbatim>\<open>CACHE_TYPE\<close> in
  \<^verbatim>\<open>dash_covid.py\<close>), which serves an entry up to and including its expiry time;
  the statements below are about calls strictly before and strictly after that time.
\<close>

definition memoize_timeout :: nat where
  "memoize_timeout = 360"

type_synonym 'd cache = "(nat \<times> 'd dataset_bundle) option"

definition cache_get :: "'d cache \<Rightarrow> nat \<Rightarrow> 'd dataset_bundle option" where
  "cache_get c now =
     (case c of
        None \<Rightarrow> None
      | Some entry \<Rightarrow> if now \<le> fst entry then Some (snd entry) else None)"

definition cache_set :: "'d dataset_bundle \<Rightarrow> nat \<Rightarrow> nat \<Rightarrow> 'd cache" where
  "cache_set rv timeout now = Some (now + timeout, rv)"

definition memoized_get_datasets ::
  "(string \<Rightarrow> 'd::linorder option) \<Rightarrow> world \<Rightarrow> nat \<Rightarrow> 'd cache
     \<Rightarrow> ((error + 'd dataset_bundle) \<times> string list) \<times> 'd cache" where
  "memoized_get_datasets to_datetime w now c =
     (case cache_get c now of
        Some rv \<Rightarrow> ((Inr rv, []), c)
      | None \<Rightarrow>
          (case get_datasets to_datetime w of
             (Inl e, requested) \<Rightarrow> ((Inl e, requested), c)
           | (Inr rv, requested) \<Rightarrow>
               ((Inr rv, requested), cache_set rv memoize_timeout now)))"

subsection \<open>Notions used in the statements\<close>

text \<open>
  The rows of one country, in the order of the frame, and the cells of these rows one
  after the other: for a frame with a single column, that column restricted to the
  country.
\<close>

definition country_rows ::
  "string \<Rightarrow> (string \<times> 'd, 'v) frame \<Rightarrow> ((string \<times> 'd) \<times> 'v list) list" where
  "country_rows c f = filter (\<lambda>r. fst (fst r) = c) (rows f)"

definition country_series :: "string \<Rightarrow> (string \<times> 'd, 'v) frame \<Rightarrow> 'v list" where
  "country_series c f = concat (map snd (country_rows c f))"

text \<open>
  The difference of consecutive rows of one sequence, starting from the previous row
  \<open>p\<close> if there is one: what \<open>groupby_diff\<close> does inside one country.
\<close>

fun diff_from ::
  "cell list option \<Rightarrow> ((string \<times> 'd) \<times> cell list) list \<Rightarrow> ((string \<times> 'd) \<times> cell list) list" where
  "diff_from p [] = []"
| "diff_from p (r # rs) =
     (fst r, (case p of None \<Rightarrow> map (\<lambda>_. NaN) (snd r) | Some ps \<Rightarrow> map2 sub_cell (snd r) ps))
     # diff_from (Some (snd r)) rs"

text \<open>
  The rows of the long table that belong to one (country, parsed date) pair: the
  sub-locations of the country on that date.
\<close>

definition sub_locations ::
  "(string \<Rightarrow> 'd option) \<Rightarrow> long_table \<Rightarrow> string \<times> 'd \<Rightarrow> long_table" where
  "sub_locations to_datetime df k =
     filter (\<lambda>r. country_region (long_ids r) = Some (fst k) \<and>
                  to_datetime (date r) = Some (snd k)) df"

text \<open>
  What a left join puts into the columns of the right-hand frame, for the index label
  \<open>k\<close>: the cells of a right-hand row with that label, or missing values when the
  right-hand frame has no such row.
\<close>

definition joined_block :: "'k \<Rightarrow> ('k, cell) frame \<Rightarrow> cell list \<Rightarrow> bool" where
  "joined_block k right b =
     (if k \<in> fst ` set (rows right) then (k, b) \<in> set (rows right)
      else b = map (\<lambda>_. NaN) (columns right))"

subsection \<open>Example inputs\<close>

text \<open>
  A date parser for the statements evaluated below: \<^verbatim>\<open>pd.to_datetime\<close> on the
  column labels of the CSSE files, which are written month/day/two-digit year. A date
  is (year, month, day), ordered lexicographically.
\<close>

fun split_on :: "char \<Rightarrow> string \<Rightarrow> string list" where
  "split_on sep [] = [[]]"
| "split_on sep (c # s) =
     (if c = sep then [] # split_on sep s
      else (case split_on sep s of [] \<Rightarrow> [[c]] | w # ws \<Rightarrow> (c # w) # ws))"

definition digit_of :: "char \<Rightarrow> nat option" where
  "digit_of c = (if CHR ''0'' \<le> c \<and> c \<le> CHR ''9'' then Some (of_char c - 48) else None)"

fun nat_of_digits :: "nat \<Rightarrow> string \<Rightarrow> nat option" where
  "nat_of_digits acc [] = Some acc"
| "nat_of_digits acc (c # s) =
     (case digit_of c of None \<Rightarrow> None | Some d \<Rightarrow> nat_of_digits (10 * acc + d) s)"

definition number_of :: "string \<Rightarrow> nat option" where
  "number_of s = (if s = [] then None else nat_of_digits 0 s)"

definition days_in_month :: "nat \<Rightarrow> nat \<Rightarrow> nat" where
  "days_in_month y m =
     (if m = 2 then (if y mod 4 = 0 \<and> (y mod 100 \<noteq> 0 \<or> y mod 400 = 0) then 29 else 28)
      else if m = 4 \<or> m = 6 \<or> m = 9 \<or> m = 11 then 30 else 31)"

definition to_datetime_mdy :: "string \<Rightarrow> (nat \<times> nat \<times> nat) option" where
  "to_datetime_mdy s =
     (case map number_of (split_on CHR ''/'' s) of
        [Some m, Some d, Some yy] \<Rightarrow>
          (let y = (if yy < 69 then 2000 + yy else 1900 + yy) in
           if yy < 100 \<and> 1 \<le> m \<and> m \<le> 12 \<and> 1 \<le> d \<and> d \<le> days_in_month y m
           then Some (y, m, d) else None)
      | _ \<Rightarrow> None)"

text \<open>
  A raw table with one row for country A and two provinces of country B, over three
  dates whose labels are not in calendar order when compared as strings.
\<close>

definition example_raw :: raw_table where
  "example_raw =
     \<lparr>date_columns = [''1/22/20'', ''10/1/20'', ''2/1/20''],
      raw_rows =
        [\<lparr>raw_ids = \<lparr>province_state = None, country_region = Some ''A'',
                      lat = Some 0, long = Some 0\<rparr>,
          vals = [Num 1, Num 4, Num 2]\<rparr>,
         \<lparr>raw_ids = \<lparr>province_state = Some ''p1'', country_region = Some ''B'',
                      lat = Some 0, long = Some 0\<rparr>,
          vals = [Num 0, Num 1, Num 1]\<rparr>,
         \<lparr>raw_ids = \<lparr>province_state = Some ''p2'', country_region = Some ''B'',
                      lat = Some 0, long = Some 0\<rparr>,
          vals = [Num 0, Num 1, Num 0]\<rparr>]\<rparr>"

definition example_country_table :: "(string \<times> nat \<times> nat \<times> nat, cell) frame" where
  "example_country_table =
     \<lparr>columns = [''Total Confirmed''],
      rows = [((''A'', 2020, 1, 22), [Num 1]), ((''A'', 2020, 2, 1), [Num 2]),
              ((''A'', 2020, 10, 1), [Num 4]), ((''B'', 2020, 1, 22), [Num 0]),
              ((''B'', 2020, 2, 1), [Num 1]), ((''B'', 2020, 10, 1), [Num 2])]\<rparr>"

text \<open>A long table whose only record has no value: an empty field of the CSV file.\<close>

definition example_missing_row :: long_row where
  "example_missing_row =
     \<lparr>long_ids = \<lparr>province_state = None, country_region = Some ''A'',
                   lat = Some 0, long = Some 0\<rparr>,
      date = ''1/22/20'', cases = NaN\<rparr>"

text \<open>
  Frames indexed by day numbers: \<open>example_country\<close> is a country table with two
  countries, \<open>example_gaps\<close> a column with missing totals.
\<close>

definition example_country :: "(string \<times> nat, cell) frame" where
  "example_country =
     \<lparr>columns = [''Total Confirmed''],
      rows = [((''A'', 1), [Num 1]), ((''A'', 2), [Num 2]), ((''A'', 3), [Num 4]),
              ((''B'', 1), [Num 0]), ((''B'', 2), [Num 1]), ((''B'', 3), [Num 2])]\<rparr>"

definition example_gaps :: "(string \<times> nat, cell) frame" where
  "example_gaps =
     \<lparr>columns = [''Total Recovered''],
      rows = [((''A'', 1), [Num 1]), ((''A'', 2), [NaN]), ((''A'', 3), [Num 3]),
              ((''A'', 4), [Num 5])]\<rparr>"

text \<open>
  Country tables for the consolidation: the deaths table has no row for country B, and
  country A has deaths on a day without confirmed cases.
\<close>

definition example_confirmed :: "(string \<times> nat, cell) frame" where
  "example_confirmed =
     \<lparr>columns = [''Total Confirmed''],
      rows = [((''A'', 1), [Num 0]), ((''A'', 2), [Num 0]), ((''A'', 3), [Num 4]),
              ((''B'', 1), [Num 8])]\<rparr>"

definition example_deaths :: "(string \<times> nat, cell) frame" where
  "example_deaths =
     \<lparr>columns = [''Total Deaths''],
      rows = [((''A'', 1), [Num 0]), ((''A'', 2), [Num 5]), ((''A'', 3), [Num 1])]\<rparr>"

definition example_recovered :: "(string \<times> nat, cell) frame" where
  "example_recovered =
     \<lparr>columns = [''Total Recovered''],
      rows = [((''A'', 1), [Num 0]), ((''A'', 2), [Num 1]), ((''A'', 3), [Num 1]),
              ((''B'', 1), [Num 2])]\<rparr>"

definition example_rights :: "(string \<times> nat, cell) frame list" where
  "example_rights =
     [daily_data example_confirmed ''Total Confirmed'' ''Daily New Confirmed'',
      daily_data example_deaths ''Total Deaths'' ''Daily New Deaths'',
      example_deaths,
      example_recovered,
      daily_data example_recovered ''Total Recovered'' ''Daily New Recovered'']"

definition example_merged :: "(string \<times> nat, cell) frame" where
  "example_merged =
     \<lparr>columns = [''Total Confirmed'', ''Daily New Confirmed'', ''Daily New Deaths'',
                 ''Total Deaths'', ''Total Recovered'', ''Daily New Recovered''],
      rows = [((''A'', 1), [Num 0, Num 0, Num 0, Num 0, Num 0, Num 0]),
              ((''A'', 2), [Num 0, Num 0, Num 5, Num 5, Num 1, Num 1]),
              ((''A'', 3), [Num 4, Num 4, Num (- 4), Num 1, Num 1, Num 0]),
              ((''B'', 1), [Num 8, Num 0, NaN, NaN, Num 2, Num 0])]\<rparr>"

definition example_consolidated :: "(string \<times> nat, fl) frame" where
  "example_consolidated =
     \<lparr>columns = [''Total Confirmed'', ''Daily New Confirmed'', ''Daily New Deaths'',
                 ''Total Deaths'', ''Total Recovered'', ''Daily New Recovered'',
                 ''Total Active Cases'', ''Share of Recovered - Closed Cases'',
                 ''Death to Cases Ratio''],
      rows = [((''A'', 1), [Fin 0, Fin 0, Fin 0, Fin 0, Fin 0, Fin 0, Fin 0, FNaN, FNaN]),
              ((''A'', 2), [Fin 0, Fin 0, Fin 5, Fin 5, Fin 1, Fin 1, Fin (- 6),
                            Fin (17 / 100), PInf]),
              ((''A'', 3), [Fin 4, Fin 4, Fin (- 4), Fin 1, Fin 1, Fin 0, Fin 2,
                            Fin (1 / 2), Fin (1 / 4)]),
              ((''B'', 1), [Fin 8, Fin 0, FNaN, FNaN, Fin 2, Fin 0, FNaN, FNaN, FNaN])]\<rparr>"

definition example_raw_small :: raw_table where
  "example_raw_small =
     \<lparr>date_columns = [''1/22/20'', ''1/23/20''],
      raw_rows =
        [\<lparr>raw_ids = \<lparr>province_state = None, country_region = Some ''A'',
                      lat = Some 0, long = Some 0\<rparr>,
          vals = [Num 1, Num 3]\<rparr>]\<rparr>"

text \<open>
  Remote sides: one that serves a small table for every CSV resource and a commit
  list for the metadata request, one whose metadata endpoint cannot be reached, and one
  whose second CSV resource cannot be reached.
\<close>

definition example_commits :: json where
  "example_commits =
     JArray [JObject [(''sha'', JString ''0a1b''),
                      (''commit'', JObject [(''committer'',
                          JObject [(''name'', JString ''CSSE''),
                                   (''date'', JString ''2020-04-01T23:45:10Z'')])])]]"

definition example_world :: world where
  "example_world =
     \<lparr>read_csv = (\<lambda>url. Inr example_raw_small), load_json = (\<lambda>url. Inr example_commits)\<rparr>"

definition example_world_no_metadata :: world where
  "example_world_no_metadata =
     \<lparr>read_csv = (\<lambda>url. Inr example_raw_small), load_json = (\<lambda>url. Inl URLError)\<rparr>"

definition example_world_no_deaths :: world where
  "example_world_no_deaths =
     \<lparr>read_csv = (\<lambda>url. if url = snd (cssegis_data ! 1) then Inl (HTTPError 404)
                          else Inr example_raw_small),
      load_json = (\<lambda>url. Inr example_commits)\<rparr>"

definition example_bundle :: "(nat \<times> nat \<times> nat) dataset_bundle" where
  "example_bundle = projr (fst (get_datasets to_datetime_mdy example_world))"

section \<open>Properties\<close>

subsection \<open>The long table\<close>

lemma length_clean_data:
  "length (clean_data df_raw) = length (raw_rows df_raw) * length (date_columns df_raw)"
  by (simp add: clean_data_def length_concat comp_def sum_list_triv)

lemma ids_clean_data:
  "map long_ids (clean_data df_raw) =
     concat (replicate (length (date_columns df_raw)) (map raw_ids (raw_rows df_raw)))"
  by (simp add: clean_data_def map_concat comp_def map_replicate_const)

text \<open>
  C6: the long table has one record per row and date column of the raw table, and its
  identifying columns are those of the raw table, unchanged (a missing province stays
  missing), once per date column.
\<close>

theorem clean_data_shape:
  "length (clean_data df_raw) = length (raw_rows df_raw) * length (date_columns df_raw) \<and>
   map long_ids (clean_data df_raw) =
     concat (replicate (length (date_columns df_raw)) (map raw_ids (raw_rows df_raw)))"
  using length_clean_data ids_clean_data by blast

subsection \<open>The daily differences\<close>

lemma filter_groupby_diff:
  "filter (\<lambda>r. fst (fst r) = c) (groupby_diff prev rs) =
     diff_from (prev c) (filter (\<lambda>r. fst (fst r) = c) rs)"
  by (induction rs arbitrary: prev) auto

lemma keys_groupby_diff: "map fst (groupby_diff prev rs) = map fst rs"
  by (induction rs arbitrary: prev) auto

lemma rows_daily_data:
  "rows (daily_data t old new) =
     map (\<lambda>r. (fst r, map (fillna_cell 0) (snd r))) (groupby_diff Map.empty (rows t))"
  by (simp add: daily_data_def rename_columns_def fillna_def)

lemma keys_daily_data: "map fst (rows (daily_data t old new)) = map fst (rows t)"
  by (simp add: rows_daily_data comp_def keys_groupby_diff)

lemma length_diff_from: "length (diff_from p rs) = length rs"
  by (induction rs arbitrary: p) auto

lemma nth_diff_from_0:
  "rs \<noteq> [] \<Longrightarrow> diff_from None rs ! 0 = (fst (rs ! 0), map (\<lambda>_. NaN) (snd (rs ! 0)))"
  by (cases rs) auto

lemma nth_diff_from_Suc:
  "Suc i < length rs \<Longrightarrow>
     diff_from p rs ! Suc i = (fst (rs ! Suc i), map2 sub_cell (snd (rs ! Suc i)) (snd (rs ! i)))"
proof (induction rs arbitrary: p i)
  case Nil
  then show ?case by simp
next
  case (Cons r rs)
  show ?case
  proof (cases i)
    case 0
    with Cons.prems show ?thesis by (cases rs) auto
  next
    case (Suc k)
    with Cons.prems have "Suc k < length rs" by simp
    from Cons.IH[OF this] Suc show ?thesis by simp
  qed
qed

lemma country_rows_daily_data:
  "country_rows c (daily_data t old new) =
     map (\<lambda>r. (fst r, map (fillna_cell 0) (snd r))) (diff_from None (country_rows c t))"
  by (simp add: country_rows_def rows_daily_data filter_map comp_def filter_groupby_diff)

lemma length_country_rows_daily_data:
  "length (country_rows c (daily_data t old new)) = length (country_rows c t)"
  by (simp add: country_rows_daily_data length_diff_from)

lemma first_daily_row:
  "country_rows c t \<noteq> [] \<Longrightarrow>
     snd (country_rows c (daily_data t old new) ! 0) = map (\<lambda>_. Num 0) (snd (country_rows c t ! 0))"
  by (simp add: country_rows_daily_data length_diff_from nth_diff_from_0)

lemma later_daily_row:
  "Suc i < length (country_rows c t) \<Longrightarrow>
     snd (country_rows c (daily_data t old new) ! Suc i) =
       map (fillna_cell 0) (map2 sub_cell (snd (country_rows c t ! Suc i)) (snd (country_rows c t ! i)))"
  by (simp add: country_rows_daily_data length_diff_from nth_diff_from_Suc)

lemma series_single:
  "\<forall>r\<in>set rs. \<exists>v. snd r = [v] \<Longrightarrow> concat (map snd rs) = map (\<lambda>r. hd (snd r)) rs"
  by (induction rs) auto

lemma sub_cell_NaN: "sub_cell NaN x = NaN" "sub_cell x NaN = NaN"
  by (cases x; simp)+

lemma fillna_cell_not_NaN: "fillna_cell v x \<noteq> NaN" "NaN \<noteq> fillna_cell v x"
  by (cases x; simp)+

text \<open>
  C2: in a country table whose totals are all numbers, the daily table has the same
  index, and inside every country the first difference is 0, every later difference is
  the total of its row minus the total before it, and every later total is the total
  before it plus the difference of its row.
\<close>

theorem daily_data_round_trip:
  assumes "\<forall>r\<in>set (rows t). \<exists>n. snd r = [Num n]"
  shows "map fst (rows (daily_data t old new)) = map fst (rows t) \<and>
         length (country_series c (daily_data t old new)) = length (country_series c t) \<and>
         (country_series c t \<noteq> [] \<longrightarrow> country_series c (daily_data t old new) ! 0 = Num 0) \<and>
         (\<forall>i. 0 < i \<and> i < length (country_series c t) \<longrightarrow>
            country_series c (daily_data t old new) ! i =
              sub_cell (country_series c t ! i) (country_series c t ! (i - 1)) \<and>
            country_series c t ! i =
              add_cell (country_series c t ! (i - 1)) (country_series c (daily_data t old new) ! i))"
proof -
  let ?P = "country_rows c t"
  let ?D = "country_rows c (daily_data t old new)"
  have num: "\<forall>r\<in>set ?P. \<exists>n. snd r = [Num n]"
    using assms by (auto simp: country_rows_def)
  then have single: "\<forall>r\<in>set ?P. \<exists>v. snd r = [v]" by blast
  have tot: "country_series c t = map (\<lambda>r. hd (snd r)) ?P"
    unfolding country_series_def by (rule series_single[OF single])
  have lenD: "length ?D = length ?P"
    by (rule length_country_rows_daily_data)
  have D0: "snd (?D ! 0) = [Num 0]" if "?P \<noteq> []"
  proof -
    from that have "?P ! 0 \<in> set ?P" by simp
    with num obtain n where "snd (?P ! 0) = [Num n]" by blast
    with first_daily_row[OF that, of old new] show ?thesis by simp
  qed
  have DS: "snd (?D ! Suc i) = [Num (a - b)]"
    if "Suc i < length ?P" "snd (?P ! Suc i) = [Num a]" "snd (?P ! i) = [Num b]" for i a b
    using later_daily_row[OF that(1), of old new] that(2,3) by simp
  have Dsingle: "\<forall>r\<in>set ?D. \<exists>v. snd r = [v]"
  proof
    fix r assume "r \<in> set ?D"
    then obtain i where i: "i < length ?D" "r = ?D ! i" by (auto simp: in_set_conv_nth)
    show "\<exists>v. snd r = [v]"
    proof (cases i)
      case 0
      with i lenD have "?P \<noteq> []" by auto
      from D0[OF this] i 0 show ?thesis by simp
    next
      case (Suc k)
      with i lenD have lt: "Suc k < length ?P" by simp
      then have "?P ! Suc k \<in> set ?P" "?P ! k \<in> set ?P" by simp_all
      with num obtain a b where "snd (?P ! Suc k) = [Num a]" "snd (?P ! k) = [Num b]" by blast
      from DS[OF lt this] i Suc show ?thesis by simp
    qed
  qed
  have del: "country_series c (daily_data t old new) = map (\<lambda>r. hd (snd r)) ?D"
    unfolding country_series_def by (rule series_single[OF Dsingle])
  have first: "country_series c t \<noteq> [] \<longrightarrow> country_series c (daily_data t old new) ! 0 = Num 0"
  proof
    assume "country_series c t \<noteq> []"
    with tot have ne: "?P \<noteq> []" by auto
    with lenD have "0 < length ?D" by simp
    with D0[OF ne] show "country_series c (daily_data t old new) ! 0 = Num 0"
      by (simp add: del)
  qed
  have step: "\<forall>i. 0 < i \<and> i < length (country_series c t) \<longrightarrow>
            country_series c (daily_data t old new) ! i =
              sub_cell (country_series c t ! i) (country_series c t ! (i - 1)) \<and>
            country_series c t ! i =
              add_cell (country_series c t ! (i - 1)) (country_series c (daily_data t old new) ! i)"
  proof (intro allI impI)
    fix i assume "0 < i \<and> i < length (country_series c t)"
    then obtain k where k: "i = Suc k" "Suc k < length ?P"
      by (cases i) (auto simp: tot)
    then have "?P ! Suc k \<in> set ?P" "?P ! k \<in> set ?P" by simp_all
    with num obtain a b where ab: "snd (?P ! Suc k) = [Num a]" "snd (?P ! k) = [Num b]" by blast
    from DS[OF k(2) ab] k ab lenD
    show "country_series c (daily_data t old new) ! i =
              sub_cell (country_series c t ! i) (country_series c t ! (i - 1)) \<and>
          country_series c t ! i =
              add_cell (country_series c t ! (i - 1)) (country_series c (daily_data t old new) ! i)"
      by (simp add: tot del)
  qed
  have len: "length (country_series c (daily_data t old new)) = length (country_series c t)"
    by (simp add: tot del lenD)
  from keys_daily_data[of t old new] len first step show ?thesis by blast
qed

theorem daily_data_round_trip_witness:
  "country_series ''B'' example_country = [Num 0, Num 1, Num 2] \<and>
   country_series ''B'' (daily_data example_country ''Total Confirmed'' ''Daily New Confirmed'')
     = [Num 0, Num 1, Num 1] \<and>
   country_series ''B'' example_country ! 2 =
     add_cell (country_series ''B'' example_country ! (2 - 1))
       (country_series ''B''
          (daily_data example_country ''Total Confirmed'' ''Daily New Confirmed'') ! 2)"
proof -
  have num: "\<forall>r\<in>set (rows example_country). \<exists>n. snd r = [Num n]"
    by (simp add: example_country_def)
  have tot: "country_series ''B'' example_country = [Num 0, Num 1, Num 2]"
    by (simp add: country_series_def country_rows_def example_country_def)
  have del: "country_series ''B''
               (daily_data example_country ''Total Confirmed'' ''Daily New Confirmed'')
             = [Num 0, Num 1, Num 1]"
    by (simp add: country_series_def country_rows_def example_country_def daily_data_def
        fillna_def rename_columns_def)
  have len: "(0::nat) < 2 \<and> 2 < length (country_series ''B'' example_country)"
    unfolding tot by simp
  from daily_data_round_trip[OF num, of "''Total Confirmed''" "''Daily New Confirmed''" "''B''"]
  have "\<forall>i. 0 < i \<and> i < length (country_series ''B'' example_country) \<longrightarrow>
            country_series ''B'' example_country ! i =
              add_cell (country_series ''B'' example_country ! (i - 1))
                (country_series ''B''
                   (daily_data example_country ''Total Confirmed'' ''Daily New Confirmed'') ! i)"
    by blast
  with len have "country_series ''B'' example_country ! 2 =
     add_cell (country_series ''B'' example_country ! (2 - 1))
       (country_series ''B''
          (daily_data example_country ''Total Confirmed'' ''Daily New Confirmed'') ! 2)"
    by blast
  with tot del show ?thesis by blast
qed

text \<open>
  C10: the daily table has no missing value. Inside a country the first row is all 0,
  and every later row is the difference with the row before it, where a difference
  that is missing (one of the two totals is missing) is 0.
\<close>

theorem daily_data_no_missing:
  "(\<forall>r\<in>set (rows (daily_data t old new)). NaN \<notin> set (snd r)) \<and>
   (country_rows c t \<noteq> [] \<longrightarrow>
      snd (country_rows c (daily_data t old new) ! 0) =
        map (\<lambda>_. Num 0) (snd (country_rows c t ! 0))) \<and>
   (\<forall>i. Suc i < length (country_rows c t) \<longrightarrow>
      snd (country_rows c (daily_data t old new) ! Suc i) =
        map (fillna_cell 0)
          (map2 sub_cell (snd (country_rows c t ! Suc i)) (snd (country_rows c t ! i)))) \<and>
   (\<forall>i j. Suc i < length (country_rows c t) \<and>
      j < length (snd (country_rows c t ! Suc i)) \<and> j < length (snd (country_rows c t ! i)) \<and>
      (snd (country_rows c t ! Suc i) ! j = NaN \<or> snd (country_rows c t ! i) ! j = NaN) \<longrightarrow>
        snd (country_rows c (daily_data t old new) ! Suc i) ! j = Num 0)"
proof (intro conjI)
  show "\<forall>r\<in>set (rows (daily_data t old new)). NaN \<notin> set (snd r)"
    by (auto simp: rows_daily_data fillna_cell_not_NaN)
  show "country_rows c t \<noteq> [] \<longrightarrow>
      snd (country_rows c (daily_data t old new) ! 0) =
        map (\<lambda>_. Num 0) (snd (country_rows c t ! 0))"
    by (simp add: first_daily_row)
  show "\<forall>i. Suc i < length (country_rows c t) \<longrightarrow>
      snd (country_rows c (daily_data t old new) ! Suc i) =
        map (fillna_cell 0)
          (map2 sub_cell (snd (country_rows c t ! Suc i)) (snd (country_rows c t ! i)))"
    by (simp add: later_daily_row)
  show "\<forall>i j. Suc i < length (country_rows c t) \<and>
      j < length (snd (country_rows c t ! Suc i)) \<and> j < length (snd (country_rows c t ! i)) \<and>
      (snd (country_rows c t ! Suc i) ! j = NaN \<or> snd (country_rows c t ! i) ! j = NaN) \<longrightarrow>
        snd (country_rows c (daily_data t old new) ! Suc i) ! j = Num 0"
  proof (intro allI impI)
    fix i j
    assume a: "Suc i < length (country_rows c t) \<and>
      j < length (snd (country_rows c t ! Suc i)) \<and> j < length (snd (country_rows c t ! i)) \<and>
      (snd (country_rows c t ! Suc i) ! j = NaN \<or> snd (country_rows c t ! i) ! j = NaN)"
    then have d: "snd (country_rows c (daily_data t old new) ! Suc i) =
        map (fillna_cell 0)
          (map2 sub_cell (snd (country_rows c t ! Suc i)) (snd (country_rows c t ! i)))"
      by (simp add: later_daily_row)
    from a have "sub_cell (snd (country_rows c t ! Suc i) ! j) (snd (country_rows c t ! i) ! j) = NaN"
      by (auto simp: sub_cell_NaN)
    with a show "snd (country_rows c (daily_data t old new) ! Suc i) ! j = Num 0"
      unfolding d by simp
  qed
qed

theorem daily_data_no_missing_witness:
  "rows (daily_data example_gaps ''Total Recovered'' ''Daily New Recovered'') =
     [((''A'', 1), [Num 0]), ((''A'', 2), [Num 0]), ((''A'', 3), [Num 0]), ((''A'', 4), [Num 2])] \<and>
   country_rows ''A'' example_gaps ! 0 = ((''A'', 1), [Num 1]) \<and>
   country_rows ''A'' example_gaps ! Suc 0 = ((''A'', 2), [NaN]) \<and>
   snd (country_rows ''A'' (daily_data example_gaps ''Total Recovered'' ''Daily New Recovered'') ! Suc 0)
     = map (fillna_cell 0)
         (map2 sub_cell (snd (country_rows ''A'' example_gaps ! Suc 0))
            (snd (country_rows ''A'' example_gaps ! 0))) \<and>
   snd (country_rows ''A'' (daily_data example_gaps ''Total Recovered'' ''Daily New Recovered'') ! Suc 0) ! 0
     = Num 0"
proof -
  let ?D = "country_rows ''A'' (daily_data example_gaps ''Total Recovered'' ''Daily New Recovered'')"
  have r: "rows (daily_data example_gaps ''Total Recovered'' ''Daily New Recovered'') =
     [((''A'', 1), [Num 0]), ((''A'', 2), [Num 0]), ((''A'', 3), [Num 0]), ((''A'', 4), [Num 2])]"
    by (simp add: example_gaps_def daily_data_def fillna_def rename_columns_def)
  have p: "country_rows ''A'' example_gaps =
     [((''A'', 1), [Num 1]), ((''A'', 2), [NaN]), ((''A'', 3), [Num 3]), ((''A'', 4), [Num 5])]"
    by (simp add: country_rows_def example_gaps_def)
  have p0: "country_rows ''A'' example_gaps ! 0 = ((''A'', 1), [Num 1])"
    unfolding p by simp
  have p1: "country_rows ''A'' example_gaps ! Suc 0 = ((''A'', 2), [NaN])"
    unfolding p by simp
  have len: "Suc 0 < length (country_rows ''A'' example_gaps)"
    unfolding p by simp
  note t = daily_data_no_missing[of example_gaps "''Total Recovered''" "''Daily New Recovered''" "''A''"]
  from t have "\<forall>i. Suc i < length (country_rows ''A'' example_gaps) \<longrightarrow>
      snd (?D ! Suc i) =
        map (fillna_cell 0)
          (map2 sub_cell (snd (country_rows ''A'' example_gaps ! Suc i))
             (snd (country_rows ''A'' example_gaps ! i)))"
    by blast
  with len have 1: "snd (?D ! Suc 0)
     = map (fillna_cell 0)
         (map2 sub_cell (snd (country_rows ''A'' example_gaps ! Suc 0))
            (snd (country_rows ''A'' example_gaps ! 0)))"
    by blast
  from t have "\<forall>i j. Suc i < length (country_rows ''A'' example_gaps) \<and>
      j < length (snd (country_rows ''A'' example_gaps ! Suc i)) \<and>
      j < length (snd (country_rows ''A'' example_gaps ! i)) \<and>
      (snd (country_rows ''A'' example_gaps ! Suc i) ! j = NaN \<or>
       snd (country_rows ''A'' example_gaps ! i) ! j = NaN) \<longrightarrow>
        snd (?D ! Suc i) ! j = Num 0"
    by blast
  moreover have "Suc 0 < length (country_rows ''A'' example_gaps) \<and>
      0 < length (snd (country_rows ''A'' example_gaps ! Suc 0)) \<and>
      0 < length (snd (country_rows ''A'' example_gaps ! 0)) \<and>
      (snd (country_rows ''A'' example_gaps ! Suc 0) ! 0 = NaN \<or>
       snd (country_rows ''A'' example_gaps ! 0) ! 0 = NaN)"
    unfolding p by simp
  ultimately have 2: "snd (?D ! Suc 0) ! 0 = Num 0" by blast
  from r p0 p1 1 2 show ?thesis by blast
qed

subsection \<open>The country tables\<close>

lemma those_Some: "those xs = Some ys \<Longrightarrow> xs = map Some ys"
  by (induction xs arbitrary: ys) (auto split: option.splits)

lemma those_map_Some: "those (map Some ys) = Some ys"
  by (induction ys) auto

lemma map_Some_eq: "map Some xs = map (\<lambda>k. Some (f k)) ks \<Longrightarrow> xs = map f ks"
  by (induction xs arbitrary: ks) auto

lemma set_map_filter: "set (List.map_filter f xs) = {y. \<exists>x\<in>set xs. f x = Some y}"
  by (induction xs) (auto split: option.splits)

lemma set_group_keys: "set (group_keys df) = {k. \<exists>r\<in>set df. group_key r = Some k}"
  by (simp add: group_keys_def set_map_filter)

lemma distinct_group_keys: "distinct (group_keys df)"
  by (simp add: group_keys_def)

lemma keys_groupby_sum: "map fst (groupby_sum df) = group_keys df"
  by (simp add: groupby_sum_def comp_def)

lemma set_date_level: "set (date_level (groupby_sum df)) = snd ` set (group_keys df)"
  by (auto simp: date_level_def groupby_sum_def image_iff)

lemma country_data_InrD:
  assumes "country_data to_datetime df oldname newname = Inr ct"
  obtains parsed rs where
    "map to_datetime (date_level (groupby_sum df)) = map Some parsed"
    "distinct parsed"
    "map (relabel_row to_datetime) (groupby_sum df) = map Some rs"
    "rows ct = sort_key fst rs"
    "columns ct = [if ''Cases'' = oldname then newname else ''Cases'']"
  using assms
  by (auto simp: country_data_def Let_def rename_columns_def split: option.splits if_splits
      dest!: those_Some)

lemma inj_on_date_level:
  assumes "map to_datetime L = map Some parsed" "distinct parsed"
  shows "inj_on to_datetime (set L)"
proof -
  have "distinct (map to_datetime L)"
    unfolding assms(1) using assms(2) by (simp add: distinct_map)
  then show ?thesis by (simp add: distinct_map)
qed

text \<open>What a successful run of \<^verbatim>\<open>country_data\<close> looks like, row by row.\<close>

lemma country_data_rows:
  assumes ok: "country_data to_datetime df oldname newname = Inr ct"
  shows "inj_on to_datetime (snd ` set (group_keys df))"
    and "\<forall>k\<in>set (group_keys df). to_datetime (snd k) \<noteq> None"
    and "set (rows ct) =
           (\<lambda>k. ((fst k, the (to_datetime (snd k))), [Num (sum_skipna (group_cases df k))]))
             ` set (group_keys df)"
    and "distinct (map fst (rows ct))"
    and "sorted (map fst (rows ct))"
proof -
  from ok obtain parsed rs where
    lv: "map to_datetime (date_level (groupby_sum df)) = map Some parsed" and
    dp: "distinct parsed" and
    rl: "map (relabel_row to_datetime) (groupby_sum df) = map Some rs" and
    rw: "rows ct = sort_key fst rs"
    by (rule country_data_InrD)
  from inj_on_date_level[OF lv dp]
  show inj: "inj_on to_datetime (snd ` set (group_keys df))"
    by (simp add: set_date_level)
  show some: "\<forall>k\<in>set (group_keys df). to_datetime (snd k) \<noteq> None"
  proof
    fix k assume "k \<in> set (group_keys df)"
    then have "snd k \<in> set (date_level (groupby_sum df))"
      by (simp add: set_date_level)
    then have "to_datetime (snd k) \<in> set (map to_datetime (date_level (groupby_sum df)))"
      by simp
    then show "to_datetime (snd k) \<noteq> None"
      unfolding lv by auto
  qed
  have "map Some rs =
          map (\<lambda>k. Some ((fst k, the (to_datetime (snd k))), [Num (sum_skipna (group_cases df k))]))
            (group_keys df)"
    unfolding rl[symmetric] groupby_sum_def using some
    by (auto simp: relabel_row_def)
  then have rs: "rs = map (\<lambda>k. ((fst k, the (to_datetime (snd k))), [Num (sum_skipna (group_cases df k))]))
            (group_keys df)"
    by (rule map_Some_eq)
  show "set (rows ct) =
           (\<lambda>k. ((fst k, the (to_datetime (snd k))), [Num (sum_skipna (group_cases df k))]))
             ` set (group_keys df)"
    unfolding rw rs by simp
  have "inj_on (\<lambda>k. (fst k, the (to_datetime (snd k)))) (set (group_keys df))"
  proof (rule inj_onI)
    fix k k' assume k: "k \<in> set (group_keys df)" and k': "k' \<in> set (group_keys df)"
      and eq: "(fst k, the (to_datetime (snd k))) = (fst k', the (to_datetime (snd k')))"
    from some k k' obtain d d' where "to_datetime (snd k) = Some d" "to_datetime (snd k') = Some d'"
      by blast
    with eq have "to_datetime (snd k) = to_datetime (snd k')" by simp
    with inj k k' have "snd k = snd k'" by (auto dest: inj_onD)
    with eq show "k = k'" by (simp add: prod_eq_iff)
  qed
  then have "distinct (map fst rs)"
    unfolding rs by (simp add: comp_def distinct_map distinct_group_keys)
  then have "distinct rs" "inj_on fst (set rs)"
    by (simp_all add: distinct_map)
  then show "distinct (map fst (rows ct))"
    unfolding rw by (simp add: distinct_map)
  show "sorted (map fst (rows ct))"
    unfolding rw by (rule sorted_sort_key)
qed


text \<open>
  C7 (amended): when \<^verbatim>\<open>country_data\<close> returns a table, its index has no duplicate
  and is in ascending order of country, then parsed date; its keys are the (country,
  parsed date) pairs of the long table; every value is the sum of the non-missing cases
  of the sub-locations of its key; and a key with a single sub-location whose value is a
  number has that number as its value.
\<close>

theorem country_data_aggregates:
  assumes "country_data to_datetime df oldname newname = Inr ct"
  shows "distinct (map fst (rows ct)) \<and>
         sorted (map fst (rows ct)) \<and>
         fst ` set (rows ct) =
           {(c, d). \<exists>r\<in>set df. country_region (long_ids r) = Some c \<and> to_datetime (date r) = Some d} \<and>
         (\<forall>row\<in>set (rows ct).
            snd row = [Num (sum_skipna (map cases (sub_locations to_datetime df (fst row))))]) \<and>
         (\<forall>row\<in>set (rows ct). \<forall>r v.
            sub_locations to_datetime df (fst row) = [r] \<and> cases r = Num v \<longrightarrow> snd row = [Num v])"
proof -
  note facts = country_data_rows[OF assms]
  let ?key = "\<lambda>k. (fst k, the (to_datetime (snd k)))"
  let ?row = "\<lambda>k. (?key k, [Num (sum_skipna (group_cases df k))])"
  have sub: "group_cases df k = map cases (sub_locations to_datetime df (?key k))"
    if k: "k \<in> set (group_keys df)" for k
  proof -
    from facts(2) k obtain d where d: "to_datetime (snd k) = Some d" by blast
    have "(group_key r = Some k) =
            (country_region (long_ids r) = Some (fst k) \<and> to_datetime (date r) = Some d)"
      if r: "r \<in> set df" for r
    proof
      assume "group_key r = Some k"
      with d show "country_region (long_ids r) = Some (fst k) \<and> to_datetime (date r) = Some d"
        by (auto simp: group_key_def)
    next
      assume a: "country_region (long_ids r) = Some (fst k) \<and> to_datetime (date r) = Some d"
      then have "group_key r = Some (fst k, date r)" by (simp add: group_key_def)
      with r have "(fst k, date r) \<in> set (group_keys df)"
        by (auto simp: set_group_keys)
      then have "date r \<in> snd ` set (group_keys df)" by force
      moreover from k have "snd k \<in> snd ` set (group_keys df)" by simp
      moreover from a d have "to_datetime (date r) = to_datetime (snd k)" by simp
      ultimately have "date r = snd k" using facts(1) by (auto dest: inj_onD)
      with a show "group_key r = Some k" by (simp add: group_key_def prod_eq_iff)
    qed
    then have "filter (\<lambda>r. group_key r = Some k) df =
               filter (\<lambda>r. country_region (long_ids r) = Some (fst k) \<and> to_datetime (date r) = Some d) df"
      by (auto intro: filter_cong)
    with d show ?thesis by (simp add: group_cases_def sub_locations_def)
  qed
  have vals: "\<forall>row\<in>set (rows ct).
            snd row = [Num (sum_skipna (map cases (sub_locations to_datetime df (fst row))))]"
  proof
    fix row assume "row \<in> set (rows ct)"
    with facts(3) obtain k where k: "k \<in> set (group_keys df)" "row = ?row k" by auto
    with sub[OF k(1)] show "snd row = [Num (sum_skipna (map cases (sub_locations to_datetime df (fst row))))]"
      by simp
  qed
  have keys: "fst ` set (rows ct) =
           {(c, d). \<exists>r\<in>set df. country_region (long_ids r) = Some c \<and> to_datetime (date r) = Some d}"
    (is "?L = ?R")
  proof (intro set_eqI iffI)
    fix x assume "x \<in> ?L"
    with facts(3) obtain k where k: "k \<in> set (group_keys df)" "x = ?key k" by auto
    from facts(2) k obtain d where d: "to_datetime (snd k) = Some d" by blast
    from k(1) obtain r where "r \<in> set df" "group_key r = Some k" by (auto simp: set_group_keys)
    with d k(2) show "x \<in> ?R" by (auto simp: group_key_def)
  next
    fix x assume "x \<in> ?R"
    then obtain r where r: "r \<in> set df" "country_region (long_ids r) = Some (fst x)"
      "to_datetime (date r) = Some (snd x)" by auto
    then have "(fst x, date r) \<in> set (group_keys df)"
      by (auto simp: set_group_keys group_key_def)
    then have "?row (fst x, date r) \<in> set (rows ct)" using facts(3) by blast
    then have "fst (?row (fst x, date r)) \<in> ?L" by (rule imageI)
    with r show "x \<in> ?L" by simp
  qed
  have single: "\<forall>row\<in>set (rows ct). \<forall>r v.
            sub_locations to_datetime df (fst row) = [r] \<and> cases r = Num v \<longrightarrow> snd row = [Num v]"
    using vals by auto
  from facts(4,5) keys vals single show ?thesis by blast
qed

lemma country_data_numeric:
  assumes "country_data to_datetime df oldname newname = Inr ct"
  shows "\<forall>r\<in>set (rows ct). \<exists>n. snd r = [Num n]"
  using country_data_rows(3)[OF assms] by auto

lemma country_data_columns:
  assumes "country_data to_datetime df ''Cases'' newname = Inr ct"
  shows "columns ct = [newname]"
  using assms by (elim country_data_InrD) simp

lemma wf_country_data:
  assumes "country_data to_datetime df oldname newname = Inr ct"
  shows "wf_frame ct"
proof -
  from assms have "length (columns ct) = 1" by (elim country_data_InrD) simp
  with country_data_numeric[OF assms] show ?thesis
    by (auto simp: wf_frame_def list_all_iff)
qed

lemma country_data_total:
  assumes some: "\<forall>k\<in>set (group_keys df). to_datetime (snd k) \<noteq> None"
    and inj: "inj_on to_datetime (snd ` set (group_keys df))"
  shows "\<exists>ct. country_data to_datetime df oldname newname = Inr ct"
proof -
  let ?L = "date_level (groupby_sum df)"
  have L: "set ?L = snd ` set (group_keys df)" by (rule set_date_level)
  have dL: "distinct ?L" by (simp add: date_level_def)
  have "map to_datetime ?L = map (\<lambda>s. Some (the (to_datetime s))) ?L"
    using some L by (intro map_cong) auto
  then have "map to_datetime ?L = map Some (map (\<lambda>s. the (to_datetime s)) ?L)"
    by (simp add: comp_def)
  then have lv: "those (map to_datetime ?L) = Some (map (\<lambda>s. the (to_datetime s)) ?L)"
    by (simp only: those_map_Some)
  have "inj_on (\<lambda>s. the (to_datetime s)) (set ?L)"
  proof (rule inj_onI)
    fix s s' assume s: "s \<in> set ?L" "s' \<in> set ?L" and eq: "the (to_datetime s) = the (to_datetime s')"
    from s some L obtain d d' where "to_datetime s = Some d" "to_datetime s' = Some d'" by force
    with eq have "to_datetime s = to_datetime s'" by simp
    with inj s L show "s = s'" by (auto dest: inj_onD)
  qed
  with dL have dp: "distinct (map (\<lambda>s. the (to_datetime s)) ?L)"
    by (simp add: distinct_map)
  have "map (relabel_row to_datetime) (groupby_sum df) =
          map (\<lambda>k. Some ((fst k, the (to_datetime (snd k))), [Num (sum_skipna (group_cases df k))]))
            (group_keys df)"
    unfolding groupby_sum_def using some by (auto simp: relabel_row_def)
  then have "map (relabel_row to_datetime) (groupby_sum df) =
          map Some (map (\<lambda>k. ((fst k, the (to_datetime (snd k))), [Num (sum_skipna (group_cases df k))]))
            (group_keys df))"
    by (simp add: comp_def)
  then have rl: "those (map (relabel_row to_datetime) (groupby_sum df)) =
          Some (map (\<lambda>k. ((fst k, the (to_datetime (snd k))), [Num (sum_skipna (group_cases df k))]))
            (group_keys df))"
    by (simp only: those_map_Some)
  show ?thesis
    unfolding country_data_def Let_def lv rl using dp by simp
qed

lemma to_datetime_mdy_examples:
  "to_datetime_mdy ''1/22/20'' = Some (2020, 1, 22)"
  "to_datetime_mdy ''2/1/20'' = Some (2020, 2, 1)"
  "to_datetime_mdy ''10/1/20'' = Some (2020, 10, 1)"
  "to_datetime_mdy ''01/22/20'' = Some (2020, 1, 22)"
  by code_simp+

lemma country_data_example:
  "country_data to_datetime_mdy (clean_data example_raw) ''Cases'' ''Total Confirmed'' =
     Inr example_country_table"
  by code_simp

lemma sub_locations_example:
  "sub_locations to_datetime_mdy (clean_data example_raw) (''B'', 2020, 10, 1) =
     [\<lparr>long_ids = \<lparr>province_state = Some ''p1'', country_region = Some ''B'',
                   lat = Some 0, long = Some 0\<rparr>, date = ''10/1/20'', cases = Num 1\<rparr>,
      \<lparr>long_ids = \<lparr>province_state = Some ''p2'', country_region = Some ''B'',
                   lat = Some 0, long = Some 0\<rparr>, date = ''10/1/20'', cases = Num 1\<rparr>]"
  by code_simp

lemma sub_locations_example_single:
  "sub_locations to_datetime_mdy (clean_data example_raw) (''A'', 2020, 2, 1) =
     [\<lparr>long_ids = \<lparr>province_state = None, country_region = Some ''A'',
                   lat = Some 0, long = Some 0\<rparr>, date = ''2/1/20'', cases = Num 2\<rparr>]"
  by code_simp

theorem country_data_aggregates_witness:
  "country_data to_datetime_mdy (clean_data example_raw) ''Cases'' ''Total Confirmed'' =
     Inr example_country_table \<and>
   distinct (map fst (rows example_country_table)) \<and>
   sorted (map fst (rows example_country_table)) \<and>
   ((''B'', 2020, 10, 1), [Num 2]) \<in> set (rows example_country_table) \<and>
   [Num 2] = [Num (sum_skipna (map cases
                (sub_locations to_datetime_mdy (clean_data example_raw) (''B'', 2020, 10, 1))))] \<and>
   ((''A'', 2020, 2, 1), [Num 2]) \<in> set (rows example_country_table) \<and>
   map cases (sub_locations to_datetime_mdy (clean_data example_raw) (''A'', 2020, 2, 1)) = [Num 2]"
proof -
  note run = country_data_example
  from country_data_aggregates[OF run]
  have d: "distinct (map fst (rows example_country_table))"
    and s: "sorted (map fst (rows example_country_table))"
    and v: "\<forall>row\<in>set (rows example_country_table).
              snd row = [Num (sum_skipna (map cases
                (sub_locations to_datetime_mdy (clean_data example_raw) (fst row))))]"
    by blast+
  have b: "((''B'', 2020, 10, 1), [Num 2]) \<in> set (rows example_country_table)"
    by (simp add: example_country_table_def)
  have a: "((''A'', 2020, 2, 1), [Num 2]) \<in> set (rows example_country_table)"
    by (simp add: example_country_table_def)
  from bspec[OF v b]
  have vb: "[Num 2] = [Num (sum_skipna (map cases
                (sub_locations to_datetime_mdy (clean_data example_raw) (''B'', 2020, 10, 1))))]"
    by simp
  have va: "map cases (sub_locations to_datetime_mdy (clean_data example_raw) (''A'', 2020, 2, 1))
              = [Num 2]"
    unfolding sub_locations_example_single by simp
  from run d s b vb a va show ?thesis by blast
qed

text \<open>
  The claim as it is written does not hold for a single sub-location whose value is
  missing: the sum skips the missing value, and the country total is 0.
\<close>

theorem country_data_single_missing_counterexample:
  "sub_locations to_datetime_mdy [example_missing_row] (''A'', 2020, 1, 22) = [example_missing_row] \<and>
   country_data to_datetime_mdy [example_missing_row] ''Cases'' ''Total Confirmed'' =
     Inr \<lparr>columns = [''Total Confirmed''], rows = [((''A'', 2020, 1, 22), [Num 0])]\<rparr> \<and>
   [Num 0] \<noteq> [cases example_missing_row]"
  by code_simp

text \<open>Two labels of one calendar date make \<^verbatim>\<open>set_levels\<close> raise.\<close>

lemma duplicate_dates_example:
  "country_data to_datetime_mdy
     [example_missing_row, example_missing_row\<lparr>date := ''01/22/20''\<rparr>] ''Cases'' ''Total Confirmed''
   = Inl ValueError"
  by code_simp

subsection \<open>The consolidated table\<close>

text \<open>Column access.\<close>

lemma index_of_None: "index_of a xs = None \<longleftrightarrow> a \<notin> set xs"
  by (induction xs) auto

lemma index_of_Some: "index_of a xs = Some j \<Longrightarrow> j < length xs \<and> xs ! j = a"
  by (induction xs arbitrary: j) (auto split: if_splits)

lemma index_of_append_new: "a \<notin> set xs \<Longrightarrow> index_of a (xs @ [a]) = Some (length xs)"
  by (induction xs) auto

lemma index_of_append_other: "b \<noteq> a \<Longrightarrow> index_of a (xs @ [b]) = index_of a xs"
  by (induction xs) auto

lemma and_then_Inr: "and_then m f = Inr y \<longleftrightarrow> (\<exists>x. m = Inr x \<and> f x = Inr y)"
  by (cases m) (auto simp: and_then_def)

lemma and_then_simps: "and_then (Inr x) f = f x" "and_then (Inl e) f = Inl e"
  by (simp_all add: and_then_def)

lemma length_getitem: "getitem df name = Inr vs \<Longrightarrow> length vs = length (rows df)"
  by (auto simp: getitem_def split: option.splits)

lemma getitem_Inr_iff: "(\<exists>vs. getitem df name = Inr vs) \<longleftrightarrow> name \<in> set (columns df)"
proof (cases "index_of name (columns df)")
  case None
  then have "name \<notin> set (columns df)" by (simp add: index_of_None)
  with None show ?thesis by (simp add: getitem_def)
next
  case (Some j)
  then have "name \<in> set (columns df)" by (auto dest!: index_of_Some)
  with Some show ?thesis by (simp add: getitem_def)
qed

lemma getitem_Inl: "getitem df name = Inl e \<Longrightarrow> e = KeyError name \<and> name \<notin> set (columns df)"
  by (auto simp: getitem_def index_of_None split: option.splits)

lemma wf_frameD: "wf_frame df \<Longrightarrow> r \<in> set (rows df) \<Longrightarrow> length (snd r) = length (columns df)"
  by (simp add: wf_frame_def list_all_iff)

lemma wf_setitem: "wf_frame df \<Longrightarrow> wf_frame (setitem df name vs)"
  by (auto simp: wf_frame_def setitem_def list_all_iff split: option.splits dest!: set_zip_leftD)

lemma keys_setitem:
  "length vs = length (rows df) \<Longrightarrow> map fst (rows (setitem df name vs)) = map fst (rows df)"
  by (auto simp: setitem_def split: option.splits intro!: nth_equalityI)

lemma columns_setitem:
  "set (columns (setitem df name vs)) = insert name (set (columns df))"
  by (auto simp: setitem_def index_of_None split: option.splits dest: index_of_Some)

lemma getitem_setitem_same:
  assumes "wf_frame df" "length vs = length (rows df)"
  shows "getitem (setitem df name vs) name = Inr vs"
proof (cases "index_of name (columns df)")
  case None
  then have "name \<notin> set (columns df)" by (simp add: index_of_None)
  then have ix: "index_of name (columns df @ [name]) = Some (length (columns df))"
    by (rule index_of_append_new)
  have "map (\<lambda>r. snd r ! length (columns df))
          (map2 (\<lambda>r v. (fst r, snd r @ [v])) (rows df) vs) = vs"
    using assms by (intro nth_equalityI) (auto simp: wf_frameD nth_append)
  with None ix show ?thesis by (simp add: getitem_def setitem_def)
next
  case (Some j)
  then have j: "j < length (columns df)" by (auto dest: index_of_Some)
  have "map (\<lambda>r. snd r ! j) (map2 (\<lambda>r v. (fst r, (snd r)[j := v])) (rows df) vs) = vs"
    using assms j by (intro nth_equalityI) (auto simp: wf_frameD)
  with Some show ?thesis by (simp add: getitem_def setitem_def)
qed

lemma getitem_setitem_other:
  assumes "name \<noteq> other" "wf_frame df" "length vs = length (rows df)"
  shows "getitem (setitem df name vs) other = getitem df other"
proof (cases "index_of name (columns df)")
  case None
  show ?thesis
  proof (cases "index_of other (columns df)")
    case n: None
    with None assms(1) show ?thesis
      by (simp add: getitem_def setitem_def index_of_append_other)
  next
    case (Some i)
    then have i: "i < length (columns df)" by (auto dest: index_of_Some)
    have "map (\<lambda>r. snd r ! i) (map2 (\<lambda>r v. (fst r, snd r @ [v])) (rows df) vs) =
          map (\<lambda>r. snd r ! i) (rows df)"
      using assms i by (intro nth_equalityI) (auto simp: wf_frameD nth_append)
    with None Some assms(1) show ?thesis
      by (simp add: getitem_def setitem_def index_of_append_other)
  qed
next
  case (Some j)
  show ?thesis
  proof (cases "index_of other (columns df)")
    case None
    with Some show ?thesis by (simp add: getitem_def setitem_def)
  next
    case s: (Some i)
    with Some assms(1) have "i \<noteq> j" by (auto dest!: index_of_Some)
    then have "map (\<lambda>r. snd r ! i) (map2 (\<lambda>r v. (fst r, (snd r)[j := v])) (rows df) vs) =
          map (\<lambda>r. snd r ! i) (rows df)"
      using assms by (intro nth_equalityI) auto
    with Some s show ?thesis by (simp add: getitem_def setitem_def)
  qed
qed


text \<open>Left joins.\<close>

lemma merge_row_keys: "fst ` set (merge_row right l) = {fst l}"
  by (auto simp: merge_row_def image_iff split: list.splits)

lemma merge_row_nonempty: "merge_row right l \<noteq> []"
  by (simp add: merge_row_def split: list.splits)

lemma keys_merge_left: "fst ` set (rows (merge_left left right)) = fst ` set (rows left)"
proof -
  have "fst ` set (rows (merge_left left right)) = (\<Union>l\<in>set (rows left). fst ` set (merge_row right l))"
    by (auto simp: merge_left_def)
  also have "\<dots> = fst ` set (rows left)"
    by (simp add: merge_row_keys) blast
  finally show ?thesis .
qed

lemma keys_foldl_merge_left:
  "fst ` set (rows (foldl merge_left left rights)) = fst ` set (rows left)"
  by (induction rights arbitrary: left) (simp_all add: keys_merge_left)

lemma in_merge_row:
  "row \<in> set (merge_row right l) \<Longrightarrow>
     \<exists>b. row = (fst l, snd l @ b) \<and> joined_block (fst l) right b"
proof (cases "filter (\<lambda>r. fst r = fst l) (rows right)")
  case Nil
  assume "row \<in> set (merge_row right l)"
  with Nil have row: "row = (fst l, snd l @ map (\<lambda>_. NaN) (columns right))"
    by (simp add: merge_row_def)
  from Nil have "fst l \<notin> fst ` set (rows right)"
    by (auto simp: filter_empty_conv)
  with row show ?thesis by (auto simp: joined_block_def)
next
  case (Cons m ms)
  assume "row \<in> set (merge_row right l)"
  with Cons have "row \<in> (\<lambda>r. (fst l, snd l @ snd r)) ` set (m # ms)"
    by (simp add: merge_row_def)
  then obtain r where r: "r \<in> set (m # ms)" "row = (fst l, snd l @ snd r)"
    by (rule imageE)
  from r(1) have "r \<in> set (filter (\<lambda>r. fst r = fst l) (rows right))"
    unfolding Cons .
  then have "r \<in> set (rows right)" "fst r = fst l" by simp_all
  then have "(fst l, snd r) \<in> set (rows right)" by (metis prod.collapse)
  then have "joined_block (fst l) right (snd r)"
    unfolding joined_block_def by (auto intro: rev_image_eqI)
  with r(2) show ?thesis by blast
qed

lemma in_merge_left:
  assumes "row \<in> set (rows (merge_left left right))"
  shows "\<exists>l\<in>set (rows left). \<exists>b. row = (fst l, snd l @ b) \<and> joined_block (fst l) right b"
proof -
  from assms obtain l where "l \<in> set (rows left)" "row \<in> set (merge_row right l)"
    by (auto simp: merge_left_def)
  with in_merge_row show ?thesis by blast
qed

lemma in_foldl_merge_left:
  assumes "row \<in> set (rows (foldl merge_left left rights))"
  shows "\<exists>l\<in>set (rows left). \<exists>blocks.
           fst row = fst l \<and> snd row = snd l @ concat blocks \<and>
           list_all2 (joined_block (fst row)) rights blocks"
  using assms
proof (induction rights arbitrary: left)
  case Nil
  then show ?case by (intro bexI[of _ row] exI[of _ "[]"]) simp_all
next
  case (Cons right rights)
  from Cons.prems have "row \<in> set (rows (foldl merge_left (merge_left left right) rights))"
    by simp
  from Cons.IH[OF this] obtain m blocks where
    m: "m \<in> set (rows (merge_left left right))" and
    row: "fst row = fst m" "snd row = snd m @ concat blocks" and
    bl: "list_all2 (joined_block (fst row)) rights blocks"
    by blast
  from in_merge_left[OF m] obtain l b where
    l: "l \<in> set (rows left)" "m = (fst l, snd l @ b)" "joined_block (fst l) right b"
    by blast
  from l(2,3) row bl
  have "fst row = fst l \<and> snd row = snd l @ concat (b # blocks) \<and>
        list_all2 (joined_block (fst row)) (right # rights) (b # blocks)"
    by simp
  with l(1) show ?case by blast
qed

lemma wf_merge_left:
  assumes "wf_frame left" "wf_frame right"
  shows "wf_frame (merge_left left right)"
proof -
  have "length (snd row) = length (columns left) + length (columns right)"
    if "row \<in> set (rows (merge_left left right))" for row
  proof -
    from in_merge_left[OF that] obtain l b where
      l: "l \<in> set (rows left)" "row = (fst l, snd l @ b)" "joined_block (fst l) right b"
      by blast
    from l(3) have "length b = length (columns right)"
      using wf_frameD[OF assms(2)] by (auto simp: joined_block_def split: if_splits)
    with l(1,2) wf_frameD[OF assms(1)] show ?thesis by simp
  qed
  then show ?thesis
    by (simp add: wf_frame_def list_all_iff merge_left_def merge_columns_def)
qed

lemma wf_foldl_merge_left:
  "wf_frame left \<Longrightarrow> list_all wf_frame rights \<Longrightarrow> wf_frame (foldl merge_left left rights)"
  by (induction rights arbitrary: left) (simp_all add: wf_merge_left)

lemma merge_columns_disjoint: "set ls \<inter> set rs = {} \<Longrightarrow> merge_columns ls rs = ls @ rs"
  by (auto simp: merge_columns_def intro!: map_idI)

lemma columns_foldl_merge_left:
  "distinct (columns left @ concat (map columns rights)) \<Longrightarrow>
     columns (foldl merge_left left rights) = columns left @ concat (map columns rights)"
proof (induction rights arbitrary: left)
  case Nil
  then show ?case by simp
next
  case (Cons right rights)
  from Cons.prems have disj: "set (columns left) \<inter> set (columns right) = {}" by auto
  then have c: "columns (merge_left left right) = columns left @ columns right"
    by (simp add: merge_left_def merge_columns_disjoint)
  from Cons.prems have "distinct (columns (merge_left left right) @ concat (map columns rights))"
    unfolding c by simp
  from Cons.IH[OF this] c show ?case by simp
qed

lemma merge_row_unique:
  assumes "distinct (map fst (rows right))"
  shows "length (merge_row right l) = 1"
proof -
  have "distinct (map fst xs) \<Longrightarrow> length (filter (\<lambda>r. fst r = k) xs) \<le> 1" for xs :: "('a \<times> 'b) list" and k
    by (induction xs) (auto simp: filter_empty_conv image_iff)
  from this[OF assms, of "fst l"] show ?thesis
    by (cases "filter (\<lambda>r. fst r = fst l) (rows right)") (auto simp: merge_row_def)
qed

lemma keys_merge_left_unique:
  assumes "distinct (map fst (rows right))"
  shows "map fst (rows (merge_left left right)) = map fst (rows left)"
proof -
  have "map fst (merge_row right l) = [fst l]" for l
  proof -
    from merge_row_unique[OF assms, of l] obtain row where row: "merge_row right l = [row]"
      by (cases "merge_row right l") auto
    then have "row \<in> set (merge_row right l)" by simp
    with merge_row_keys[of right l] have "fst row = fst l" by blast
    with row show ?thesis by simp
  qed
  then show ?thesis
    by (simp add: merge_left_def map_concat comp_def)
qed

text \<open>The derived columns.\<close>

lemma rows_astype_float: "map fst (rows (astype_float df)) = map fst (rows df)"
  by (simp add: astype_float_def comp_def)

lemma wf_astype_float: "wf_frame df \<Longrightarrow> wf_frame (astype_float df)"
  by (simp add: wf_frame_def astype_float_def list_all_iff)

lemma getitem_astype_float:
  assumes "wf_frame df" "getitem (astype_float df) name = Inr vs"
  shows "\<forall>v\<in>set vs. \<exists>c. v = to_float c"
proof -
  from assms(2) obtain j where j: "index_of name (columns df) = Some j"
    and vs: "vs = map (\<lambda>r. snd r ! j) (rows (astype_float df))"
    by (auto simp: getitem_def astype_float_def split: option.splits)
  from j have "j < length (columns df)" by (auto dest: index_of_Some)
  with wf_frameD[OF assms(1)] have "\<forall>r\<in>set (rows df). j < length (snd r)" by simp
  then show ?thesis unfolding vs by (auto simp: astype_float_def)
qed


lemma derive_columns_cases:
  assumes wf: "wf_frame df"
  shows "(\<exists>name\<in>{''Total Confirmed'', ''Total Deaths'', ''Total Recovered''}.
            name \<notin> set (columns df) \<and> derive_columns df = Inl (KeyError name)) \<or>
         (\<exists>tc td tr.
            getitem df ''Total Confirmed'' = Inr tc \<and>
            getitem df ''Total Deaths'' = Inr td \<and>
            getitem df ''Total Recovered'' = Inr tr \<and>
            derive_columns df =
              Inr (setitem
                    (setitem
                      (setitem df ''Total Active Cases'' (map2 fsub (map2 fsub tc td) tr))
                      ''Share of Recovered - Closed Cases''
                      (map (np_round 2) (map2 fdiv tr (map2 fadd tr td))))
                    ''Death to Cases Ratio'' (map (np_round 3) (map2 fdiv td tc))))"
proof (cases "getitem df ''Total Confirmed''")
  case (Inl e)
  from getitem_Inl[OF this] Inl show ?thesis
    by (simp add: derive_columns_def and_then_simps)
next
  case tc: (Inr tc)
  show ?thesis
  proof (cases "getitem df ''Total Deaths''")
    case (Inl e)
    from getitem_Inl[OF this] Inl tc show ?thesis
      by (simp add: derive_columns_def and_then_simps)
  next
    case td: (Inr td)
    show ?thesis
    proof (cases "getitem df ''Total Recovered''")
      case (Inl e)
      from getitem_Inl[OF this] Inl tc td show ?thesis
        by (simp add: derive_columns_def and_then_simps)
    next
      case tr: (Inr tr)
      let ?act = "map2 fsub (map2 fsub tc td) tr"
      let ?df1 = "setitem df ''Total Active Cases'' ?act"
      let ?share = "map (np_round 2) (map2 fdiv tr (map2 fadd tr td))"
      let ?df2 = "setitem ?df1 ''Share of Recovered - Closed Cases'' ?share"
      note len = length_getitem[OF tc] length_getitem[OF td] length_getitem[OF tr]
      have l1: "length ?act = length (rows df)" using len by simp
      have tr1: "getitem ?df1 ''Total Recovered'' = Inr tr"
        using getitem_setitem_other[OF _ wf l1, of "''Total Active Cases''" "''Total Recovered''"] tr
        by simp
      have td1: "getitem ?df1 ''Total Deaths'' = Inr td"
        using getitem_setitem_other[OF _ wf l1, of "''Total Active Cases''" "''Total Deaths''"] td
        by simp
      have tc1: "getitem ?df1 ''Total Confirmed'' = Inr tc"
        using getitem_setitem_other[OF _ wf l1, of "''Total Active Cases''" "''Total Confirmed''"] tc
        by simp
      have wf1: "wf_frame ?df1" by (rule wf_setitem[OF wf])
      have l2: "length ?share = length (rows ?df1)"
        using len length_getitem[OF tr1] by simp
      have td2: "getitem ?df2 ''Total Deaths'' = Inr td"
        using getitem_setitem_other[OF _ wf1 l2,
            of "''Share of Recovered - Closed Cases''" "''Total Deaths''"] td1
        by simp
      have tc2: "getitem ?df2 ''Total Confirmed'' = Inr tc"
        using getitem_setitem_other[OF _ wf1 l2,
            of "''Share of Recovered - Closed Cases''" "''Total Confirmed''"] tc1
        by simp
      have "derive_columns df =
              Inr (setitem ?df2 ''Death to Cases Ratio'' (map (np_round 3) (map2 fdiv td tc)))"
        unfolding derive_columns_def
        by (simp only: tc td tr and_then_simps Let_def tr1 td1 td2 tc2)
      with tc td tr show ?thesis by blast
    qed
  qed
qed

lemma derive_columns_Inr:
  assumes wf: "wf_frame df" and ok: "derive_columns df = Inr cf"
  obtains tc td tr where
    "getitem df ''Total Confirmed'' = Inr tc"
    "getitem df ''Total Deaths'' = Inr td"
    "getitem df ''Total Recovered'' = Inr tr"
    "getitem cf ''Total Confirmed'' = Inr tc"
    "getitem cf ''Total Deaths'' = Inr td"
    "getitem cf ''Total Recovered'' = Inr tr"
    "getitem cf ''Total Active Cases'' = Inr (map2 fsub (map2 fsub tc td) tr)"
    "getitem cf ''Share of Recovered - Closed Cases'' =
       Inr (map (np_round 2) (map2 fdiv tr (map2 fadd tr td)))"
    "getitem cf ''Death to Cases Ratio'' = Inr (map (np_round 3) (map2 fdiv td tc))"
    "map fst (rows cf) = map fst (rows df)"
proof -
  from derive_columns_cases[OF wf] ok obtain tc td tr where
    tc: "getitem df ''Total Confirmed'' = Inr tc" and
    td: "getitem df ''Total Deaths'' = Inr td" and
    tr: "getitem df ''Total Recovered'' = Inr tr" and
    cf: "cf = setitem
                (setitem
                  (setitem df ''Total Active Cases'' (map2 fsub (map2 fsub tc td) tr))
                  ''Share of Recovered - Closed Cases''
                  (map (np_round 2) (map2 fdiv tr (map2 fadd tr td))))
                ''Death to Cases Ratio'' (map (np_round 3) (map2 fdiv td tc))"
    by auto
  let ?act = "map2 fsub (map2 fsub tc td) tr"
  let ?df1 = "setitem df ''Total Active Cases'' ?act"
  let ?share = "map (np_round 2) (map2 fdiv tr (map2 fadd tr td))"
  let ?df2 = "setitem ?df1 ''Share of Recovered - Closed Cases'' ?share"
  let ?ratio = "map (np_round 3) (map2 fdiv td tc)"
  note len = length_getitem[OF tc] length_getitem[OF td] length_getitem[OF tr]
  have l1: "length ?act = length (rows df)" using len by simp
  have wf1: "wf_frame ?df1" by (rule wf_setitem[OF wf])
  have k1: "map fst (rows ?df1) = map fst (rows df)" by (rule keys_setitem[OF l1])
  then have r1: "length (rows ?df1) = length (rows df)" by (metis length_map)
  have l2: "length ?share = length (rows ?df1)" using len r1 by simp
  have wf2: "wf_frame ?df2" by (rule wf_setitem[OF wf1])
  have k2: "map fst (rows ?df2) = map fst (rows ?df1)" by (rule keys_setitem[OF l2])
  then have r2: "length (rows ?df2) = length (rows ?df1)" by (metis length_map)
  have l3: "length ?ratio = length (rows ?df2)" using len r1 r2 by simp
  have k3: "map fst (rows cf) = map fst (rows ?df2)" unfolding cf by (rule keys_setitem[OF l3])
  have other: "getitem cf name = getitem df name"
    if "name \<noteq> ''Total Active Cases''" "name \<noteq> ''Share of Recovered - Closed Cases''"
       "name \<noteq> ''Death to Cases Ratio''" for name
    unfolding cf
    using getitem_setitem_other[OF _ wf2 l3, of "''Death to Cases Ratio''" name]
      getitem_setitem_other[OF _ wf1 l2, of "''Share of Recovered - Closed Cases''" name]
      getitem_setitem_other[OF _ wf l1, of "''Total Active Cases''" name] that
    by simp
  have a: "getitem cf ''Total Active Cases'' = Inr ?act"
    unfolding cf
    using getitem_setitem_other[OF _ wf2 l3, of "''Death to Cases Ratio''" "''Total Active Cases''"]
      getitem_setitem_other[OF _ wf1 l2,
        of "''Share of Recovered - Closed Cases''" "''Total Active Cases''"]
      getitem_setitem_same[OF wf l1, of "''Total Active Cases''"]
    by simp
  have s: "getitem cf ''Share of Recovered - Closed Cases'' = Inr ?share"
    unfolding cf
    using getitem_setitem_other[OF _ wf2 l3,
        of "''Death to Cases Ratio''" "''Share of Recovered - Closed Cases''"]
      getitem_setitem_same[OF wf1 l2, of "''Share of Recovered - Closed Cases''"]
    by simp
  have r: "getitem cf ''Death to Cases Ratio'' = Inr ?ratio"
    unfolding cf by (rule getitem_setitem_same[OF wf2 l3])
  show thesis
    using that[OF tc td tr _ _ _ a s r] other[of "''Total Confirmed''"]
      other[of "''Total Deaths''"] other[of "''Total Recovered''"] tc td tr k1 k2 k3
    by simp
qed

lemma keys_foldl_merge_left_unique:
  "list_all (\<lambda>r. distinct (map fst (rows r))) rights \<Longrightarrow>
     map fst (rows (foldl merge_left left rights)) = map fst (rows left)"
  by (induction rights arbitrary: left) (simp_all add: keys_merge_left_unique)

lemma consolidate_InrD:
  assumes "wf_frame confirmed" "list_all wf_frame rights" "consolidate confirmed rights = Inr cf"
  obtains tc td tr where
    "getitem cf ''Total Confirmed'' = Inr tc"
    "getitem cf ''Total Deaths'' = Inr td"
    "getitem cf ''Total Recovered'' = Inr tr"
    "getitem cf ''Total Active Cases'' = Inr (map2 fsub (map2 fsub tc td) tr)"
    "getitem cf ''Share of Recovered - Closed Cases'' =
       Inr (map (np_round 2) (map2 fdiv tr (map2 fadd tr td)))"
    "getitem cf ''Death to Cases Ratio'' = Inr (map (np_round 3) (map2 fdiv td tc))"
    "map fst (rows cf) = map fst (rows (foldl merge_left confirmed rights))"
    "\<forall>v\<in>set tc \<union> set td \<union> set tr. \<exists>c. v = to_float c"
    "length tc = length (rows cf)" "length td = length (rows cf)" "length tr = length (rows cf)"
proof -
  let ?m = "foldl merge_left confirmed rights"
  have wfm: "wf_frame ?m" by (rule wf_foldl_merge_left[OF assms(1,2)])
  then have wf: "wf_frame (astype_float ?m)" by (rule wf_astype_float)
  from assms(3) have ok: "derive_columns (astype_float ?m) = Inr cf"
    by (simp add: consolidate_def)
  from derive_columns_Inr[OF wf ok] obtain tc td tr where f:
    "getitem (astype_float ?m) ''Total Confirmed'' = Inr tc"
    "getitem (astype_float ?m) ''Total Deaths'' = Inr td"
    "getitem (astype_float ?m) ''Total Recovered'' = Inr tr"
    "getitem cf ''Total Confirmed'' = Inr tc"
    "getitem cf ''Total Deaths'' = Inr td"
    "getitem cf ''Total Recovered'' = Inr tr"
    "getitem cf ''Total Active Cases'' = Inr (map2 fsub (map2 fsub tc td) tr)"
    "getitem cf ''Share of Recovered - Closed Cases'' =
       Inr (map (np_round 2) (map2 fdiv tr (map2 fadd tr td)))"
    "getitem cf ''Death to Cases Ratio'' = Inr (map (np_round 3) (map2 fdiv td tc))"
    "map fst (rows cf) = map fst (rows (astype_float ?m))"
    by blast
  from getitem_astype_float[OF wfm f(1)] getitem_astype_float[OF wfm f(2)]
    getitem_astype_float[OF wfm f(3)]
  have fin: "\<forall>v\<in>set tc \<union> set td \<union> set tr. \<exists>c. v = to_float c" by blast
  from f(10) have k: "map fst (rows cf) = map fst (rows ?m)"
    by (simp add: rows_astype_float)
  show thesis
    using that[OF f(4-9) k fin] length_getitem[OF f(4)] length_getitem[OF f(5)]
      length_getitem[OF f(6)] by simp
qed

lemma fsub_FNaN: "fsub FNaN x = FNaN" "fsub x FNaN = FNaN"
  by (cases x; simp add: fsub_def)+

lemma np_round_FNaN: "np_round k x = FNaN \<longleftrightarrow> x = FNaN"
  by (cases x) auto

lemma np_round_infinite: "np_round k x = PInf \<longleftrightarrow> x = PInf" "np_round k x = NInf \<longleftrightarrow> x = NInf"
  by (cases x; simp)+

lemma fdiv_to_float_FNaN:
  "fdiv (to_float a) (to_float b) = FNaN \<longleftrightarrow>
     to_float a = FNaN \<or> to_float b = FNaN \<or> (to_float a = Fin 0 \<and> to_float b = Fin 0)"
  by (cases a; cases b) auto

lemma fdiv_share_FNaN:
  "fdiv (to_float a) (fadd (to_float a) (to_float b)) = FNaN \<longleftrightarrow>
     to_float a = FNaN \<or> to_float b = FNaN \<or> (to_float a = Fin 0 \<and> to_float b = Fin 0)"
  by (cases a; cases b) (auto simp flip: of_int_add)

lemma fdiv_to_float_infinite:
  "fdiv (to_float a) (to_float b) \<in> {PInf, NInf} \<longleftrightarrow>
     to_float b = Fin 0 \<and> (\<exists>q. to_float a = Fin q \<and> q \<noteq> 0)"
  by (cases a; cases b) auto

text \<open>
  C3: in the consolidated table the column \<^verbatim>\<open>Total Active Cases\<close> is, row by row,
  \<^verbatim>\<open>Total Confirmed - Total Deaths - Total Recovered\<close>, computed in the arithmetic of
  the columns: where a joined table left a missing total, the active cases are missing.
\<close>

theorem active_cases_equation:
  assumes "wf_frame confirmed" "list_all wf_frame rights"
    and "consolidate confirmed rights = Inr cf"
  shows "\<exists>tc td tr act.
           getitem cf ''Total Confirmed'' = Inr tc \<and>
           getitem cf ''Total Deaths'' = Inr td \<and>
           getitem cf ''Total Recovered'' = Inr tr \<and>
           getitem cf ''Total Active Cases'' = Inr act \<and>
           length act = length (rows cf) \<and>
           (\<forall>i<length (rows cf).
              act ! i = fsub (fsub (tc ! i) (td ! i)) (tr ! i) \<and>
              (tc ! i = FNaN \<or> td ! i = FNaN \<or> tr ! i = FNaN \<longrightarrow> act ! i = FNaN))"
proof -
  from consolidate_InrD[OF assms] obtain tc td tr where f:
    "getitem cf ''Total Confirmed'' = Inr tc"
    "getitem cf ''Total Deaths'' = Inr td"
    "getitem cf ''Total Recovered'' = Inr tr"
    "getitem cf ''Total Active Cases'' = Inr (map2 fsub (map2 fsub tc td) tr)"
    "length tc = length (rows cf)" "length td = length (rows cf)" "length tr = length (rows cf)"
    by metis
  let ?act = "map2 fsub (map2 fsub tc td) tr"
  have len: "length ?act = length (rows cf)" using f(5-7) by simp
  have nth: "?act ! i = fsub (fsub (tc ! i) (td ! i)) (tr ! i)" if "i < length (rows cf)" for i
    using that f(5-7) by simp
  have "\<forall>i<length (rows cf).
              ?act ! i = fsub (fsub (tc ! i) (td ! i)) (tr ! i) \<and>
              (tc ! i = FNaN \<or> td ! i = FNaN \<or> tr ! i = FNaN \<longrightarrow> ?act ! i = FNaN)"
    using nth by (auto simp: fsub_FNaN)
  with f(1-4) len show ?thesis by blast
qed

text \<open>
  C4 (amended): consolidation fails only with a \<^verbatim>\<open>KeyError\<close> for a totals column
  that the joined frame does not have; the division never raises. Row by row, the
  share of recovered cases is \<^verbatim>\<open>round(Total Recovered / (Total Recovered + Total Deaths), 2)\<close>
  and the death ratio is \<^verbatim>\<open>round(Total Deaths / Total Confirmed, 3)\<close>. A ratio is
  not-a-number exactly when one of its operands is missing or numerator and denominator
  are both 0; the death ratio is infinite exactly when there are no confirmed cases and
  the deaths are a number other than 0.
\<close>

theorem ratio_columns:
  assumes "wf_frame confirmed" "list_all wf_frame rights"
  shows "case consolidate confirmed rights of
           Inl e \<Rightarrow>
             \<exists>name\<in>{''Total Confirmed'', ''Total Deaths'', ''Total Recovered''}.
                e = KeyError name \<and> name \<notin> set (columns (foldl merge_left confirmed rights))
         | Inr cf \<Rightarrow>
             \<exists>tc td tr share ratio.
               getitem cf ''Total Confirmed'' = Inr tc \<and>
               getitem cf ''Total Deaths'' = Inr td \<and>
               getitem cf ''Total Recovered'' = Inr tr \<and>
               getitem cf ''Share of Recovered - Closed Cases'' = Inr share \<and>
               getitem cf ''Death to Cases Ratio'' = Inr ratio \<and>
               (\<forall>i<length (rows cf).
                  share ! i = np_round 2 (fdiv (tr ! i) (fadd (tr ! i) (td ! i))) \<and>
                  ratio ! i = np_round 3 (fdiv (td ! i) (tc ! i)) \<and>
                  (share ! i = FNaN \<longleftrightarrow>
                     tr ! i = FNaN \<or> td ! i = FNaN \<or> (tr ! i = Fin 0 \<and> td ! i = Fin 0)) \<and>
                  (ratio ! i = FNaN \<longleftrightarrow>
                     td ! i = FNaN \<or> tc ! i = FNaN \<or> (td ! i = Fin 0 \<and> tc ! i = Fin 0)) \<and>
                  (ratio ! i \<in> {PInf, NInf} \<longleftrightarrow>
                     tc ! i = Fin 0 \<and> (\<exists>q. td ! i = Fin q \<and> q \<noteq> 0)))"
proof (cases "consolidate confirmed rights")
  case (Inl e)
  let ?m = "foldl merge_left confirmed rights"
  have wf: "wf_frame (astype_float ?m)"
    by (rule wf_astype_float[OF wf_foldl_merge_left[OF assms]])
  from Inl have "derive_columns (astype_float ?m) = Inl e" by (simp add: consolidate_def)
  with derive_columns_cases[OF wf]
  have "\<exists>name\<in>{''Total Confirmed'', ''Total Deaths'', ''Total Recovered''}.
                e = KeyError name \<and> name \<notin> set (columns (astype_float ?m))"
    by auto
  then show ?thesis using Inl by (simp add: astype_float_def)
next
  case (Inr cf)
  from consolidate_InrD[OF assms Inr] obtain tc td tr where f:
    "getitem cf ''Total Confirmed'' = Inr tc"
    "getitem cf ''Total Deaths'' = Inr td"
    "getitem cf ''Total Recovered'' = Inr tr"
    "getitem cf ''Share of Recovered - Closed Cases'' =
       Inr (map (np_round 2) (map2 fdiv tr (map2 fadd tr td)))"
    "getitem cf ''Death to Cases Ratio'' = Inr (map (np_round 3) (map2 fdiv td tc))"
    "\<forall>v\<in>set tc \<union> set td \<union> set tr. \<exists>c. v = to_float c"
    "length tc = length (rows cf)" "length td = length (rows cf)" "length tr = length (rows cf)"
    by metis
  let ?share = "map (np_round 2) (map2 fdiv tr (map2 fadd tr td))"
  let ?ratio = "map (np_round 3) (map2 fdiv td tc)"
  have row: "?share ! i = np_round 2 (fdiv (tr ! i) (fadd (tr ! i) (td ! i))) \<and>
             ?ratio ! i = np_round 3 (fdiv (td ! i) (tc ! i)) \<and>
             (?share ! i = FNaN \<longleftrightarrow>
                tr ! i = FNaN \<or> td ! i = FNaN \<or> (tr ! i = Fin 0 \<and> td ! i = Fin 0)) \<and>
             (?ratio ! i = FNaN \<longleftrightarrow>
                td ! i = FNaN \<or> tc ! i = FNaN \<or> (td ! i = Fin 0 \<and> tc ! i = Fin 0)) \<and>
             (?ratio ! i \<in> {PInf, NInf} \<longleftrightarrow>
                tc ! i = Fin 0 \<and> (\<exists>q. td ! i = Fin q \<and> q \<noteq> 0))"
    if i: "i < length (rows cf)" for i
  proof -
    from i f(7-9) have "tc ! i \<in> set tc" "td ! i \<in> set td" "tr ! i \<in> set tr" by simp_all
    with f(6) obtain a b c where abc: "tc ! i = to_float a" "td ! i = to_float b" "tr ! i = to_float c"
      by blast
    have s: "?share ! i = np_round 2 (fdiv (tr ! i) (fadd (tr ! i) (td ! i)))"
      using i f(7-9) by simp
    have r: "?ratio ! i = np_round 3 (fdiv (td ! i) (tc ! i))"
      using i f(7-9) by simp
    show ?thesis
      unfolding s r abc
      using fdiv_share_FNaN[of c b] fdiv_to_float_FNaN[of b a] fdiv_to_float_infinite[of b a]
      by (simp add: np_round_FNaN np_round_infinite)
  qed
  then have "\<forall>i<length (rows cf).
             ?share ! i = np_round 2 (fdiv (tr ! i) (fadd (tr ! i) (td ! i))) \<and>
             ?ratio ! i = np_round 3 (fdiv (td ! i) (tc ! i)) \<and>
             (?share ! i = FNaN \<longleftrightarrow>
                tr ! i = FNaN \<or> td ! i = FNaN \<or> (tr ! i = Fin 0 \<and> td ! i = Fin 0)) \<and>
             (?ratio ! i = FNaN \<longleftrightarrow>
                td ! i = FNaN \<or> tc ! i = FNaN \<or> (td ! i = Fin 0 \<and> tc ! i = Fin 0)) \<and>
             (?ratio ! i \<in> {PInf, NInf} \<longleftrightarrow>
                tc ! i = Fin 0 \<and> (\<exists>q. td ! i = Fin q \<and> q \<noteq> 0))"
    by blast
  with f(1-5) have "\<exists>tc td tr share ratio.
               getitem cf ''Total Confirmed'' = Inr tc \<and>
               getitem cf ''Total Deaths'' = Inr td \<and>
               getitem cf ''Total Recovered'' = Inr tr \<and>
               getitem cf ''Share of Recovered - Closed Cases'' = Inr share \<and>
               getitem cf ''Death to Cases Ratio'' = Inr ratio \<and>
               (\<forall>i<length (rows cf).
                  share ! i = np_round 2 (fdiv (tr ! i) (fadd (tr ! i) (td ! i))) \<and>
                  ratio ! i = np_round 3 (fdiv (td ! i) (tc ! i)) \<and>
                  (share ! i = FNaN \<longleftrightarrow>
                     tr ! i = FNaN \<or> td ! i = FNaN \<or> (tr ! i = Fin 0 \<and> td ! i = Fin 0)) \<and>
                  (ratio ! i = FNaN \<longleftrightarrow>
                     td ! i = FNaN \<or> tc ! i = FNaN \<or> (td ! i = Fin 0 \<and> tc ! i = Fin 0)) \<and>
                  (ratio ! i \<in> {PInf, NInf} \<longleftrightarrow>
                     tc ! i = Fin 0 \<and> (\<exists>q. td ! i = Fin q \<and> q \<noteq> 0)))"
    by blast
  with Inr show ?thesis by simp
qed

text \<open>
  C5 (amended): the consolidated table is built by five successive left joins on the
  confirmed country table, with the daily new confirmed, daily new deaths, total deaths,
  total recovered and daily new recovered tables, in this order. Its index labels are
  those of the joined frame, whose label set is that of the confirmed table (the very
  same list of labels when no right-hand table repeats a label); and every row of the
  joined frame is a row of the confirmed table extended, table by table, by the cells of
  a row with the same label, or by missing values when that table has no such row.
\<close>

theorem consolidated_left_joins:
  assumes "wf_frame confirmed" "list_all wf_frame rights"
    and "consolidate confirmed rights = Inr cf"
  shows "map snd merge_steps =
           [TS_COVID19_DAILY_NEW_CONFIRMED_COUNTRY, TS_COVID19_DAILY_NEW_DEATHS_COUNTRY,
            TS_COVID19_DEATHS_COUNTRY, TS_COVID19_RECOVERED_COUNTRY,
            TS_COVID19_DAILY_NEW_RECOVERED_COUNTRY] \<and>
         fst ` set (rows cf) = fst ` set (rows confirmed) \<and>
         map fst (rows cf) = map fst (rows (foldl merge_left confirmed rights)) \<and>
         (list_all (\<lambda>r. distinct (map fst (rows r))) rights \<longrightarrow>
            map fst (rows cf) = map fst (rows confirmed)) \<and>
         (\<forall>row\<in>set (rows (foldl merge_left confirmed rights)).
            \<exists>l\<in>set (rows confirmed). \<exists>blocks.
              fst row = fst l \<and> snd row = snd l @ concat blocks \<and>
              list_all2 (joined_block (fst row)) rights blocks)"
proof -
  from consolidate_InrD[OF assms]
  have k: "map fst (rows cf) = map fst (rows (foldl merge_left confirmed rights))"
    by metis
  then have "set (map fst (rows cf)) = set (map fst (rows (foldl merge_left confirmed rights)))"
    by simp
  then have ks: "fst ` set (rows cf) = fst ` set (rows confirmed)"
    by (simp add: keys_foldl_merge_left)
  have steps: "map snd merge_steps =
           [TS_COVID19_DAILY_NEW_CONFIRMED_COUNTRY, TS_COVID19_DAILY_NEW_DEATHS_COUNTRY,
            TS_COVID19_DEATHS_COUNTRY, TS_COVID19_RECOVERED_COUNTRY,
            TS_COVID19_DAILY_NEW_RECOVERED_COUNTRY]"
    by (simp add: merge_steps_def)
  from steps ks k keys_foldl_merge_left_unique[of rights confirmed] in_foldl_merge_left[of _ confirmed rights]
  show ?thesis by auto
qed

lemma example_merge: "foldl merge_left example_confirmed example_rights = example_merged"
  by code_simp

lemma example_consolidate:
  "consolidate example_confirmed example_rights = Inr example_consolidated"
  by code_simp

lemma wf_example_confirmed: "wf_frame example_confirmed"
  by code_simp

lemma wf_example_rights: "list_all wf_frame example_rights"
  by code_simp

lemma example_columns:
  "getitem example_consolidated ''Total Confirmed'' = Inr [Fin 0, Fin 0, Fin 4, Fin 8]"
  "getitem example_consolidated ''Total Deaths'' = Inr [Fin 0, Fin 5, Fin 1, FNaN]"
  "getitem example_consolidated ''Total Recovered'' = Inr [Fin 0, Fin 1, Fin 1, Fin 2]"
  by (simp_all add: getitem_def example_consolidated_def)

theorem active_cases_equation_witness:
  "consolidate example_confirmed example_rights = Inr example_consolidated \<and>
   getitem example_consolidated ''Total Active Cases'' = Inr [Fin 0, Fin (- 6), Fin 2, FNaN] \<and>
   [Fin 0, Fin (- 6), Fin 2, FNaN] ! 1 = fsub (fsub (Fin 0) (Fin 5)) (Fin 1) \<and>
   [Fin 0, Fin (- 6), Fin 2, FNaN] ! 3 = fsub (fsub (Fin 8) FNaN) (Fin 2)"
proof -
  from active_cases_equation[OF wf_example_confirmed wf_example_rights example_consolidate]
  obtain tc td tr act where f:
    "getitem example_consolidated ''Total Confirmed'' = Inr tc"
    "getitem example_consolidated ''Total Deaths'' = Inr td"
    "getitem example_consolidated ''Total Recovered'' = Inr tr"
    "getitem example_consolidated ''Total Active Cases'' = Inr act"
    "length act = length (rows example_consolidated)"
    "\<forall>i<length (rows example_consolidated).
        act ! i = fsub (fsub (tc ! i) (td ! i)) (tr ! i)"
    by blast
  from f(1-3) have v: "tc = [Fin 0, Fin 0, Fin 4, Fin 8]" "td = [Fin 0, Fin 5, Fin 1, FNaN]"
    "tr = [Fin 0, Fin 1, Fin 1, Fin 2]"
    by (simp_all add: example_columns)
  have n: "length (rows example_consolidated) = 4"
    by (simp add: example_consolidated_def)
  from f(6) n have "act ! 0 = fsub (fsub (tc ! 0) (td ! 0)) (tr ! 0)"
    "act ! 1 = fsub (fsub (tc ! 1) (td ! 1)) (tr ! 1)"
    "act ! 2 = fsub (fsub (tc ! 2) (td ! 2)) (tr ! 2)"
    "act ! 3 = fsub (fsub (tc ! 3) (td ! 3)) (tr ! 3)"
    by simp_all
  then have a: "act ! 0 = Fin 0" "act ! 1 = Fin (- 6)" "act ! 2 = Fin 2" "act ! 3 = FNaN"
    unfolding v by (simp_all add: fsub_def)
  from f(5) n have "length act = 4" by simp
  with a have "act = [Fin 0, Fin (- 6), Fin 2, FNaN]"
    by (intro nth_equalityI) (auto simp: less_Suc_eq numeral_eq_Suc)
  with f(4) example_consolidate show ?thesis by (simp add: fsub_def)
qed

lemma example_ratio_columns:
  "getitem example_consolidated ''Share of Recovered - Closed Cases'' =
     Inr [FNaN, Fin (17 / 100), Fin (1 / 2), FNaN]"
  "getitem example_consolidated ''Death to Cases Ratio'' = Inr [FNaN, PInf, Fin (1 / 4), FNaN]"
  by (simp_all add: getitem_def example_consolidated_def)

lemma np_round_examples:
  "np_round 2 (fdiv (Fin 1) (fadd (Fin 1) (Fin 5))) = Fin (17 / 100)"
  "np_round 3 (fdiv (Fin 1) (Fin 4)) = Fin (1 / 4)"
  "np_round 3 (fdiv (Fin 5) (Fin 0)) = PInf"
  "np_round 3 (fdiv FNaN (Fin 8)) = FNaN"
  by code_simp+

theorem ratio_columns_witness:
  "consolidate example_confirmed example_rights = Inr example_consolidated \<and>
   (\<exists>share ratio.
      getitem example_consolidated ''Share of Recovered - Closed Cases'' = Inr share \<and>
      getitem example_consolidated ''Death to Cases Ratio'' = Inr ratio \<and>
      share ! 1 = np_round 2 (fdiv (Fin 1) (fadd (Fin 1) (Fin 5))) \<and>
      ratio ! 2 = np_round 3 (fdiv (Fin 1) (Fin 4)) \<and>
      ratio ! 1 = np_round 3 (fdiv (Fin 5) (Fin 0)) \<and>
      ratio ! 1 \<noteq> FNaN)"
proof -
  from ratio_columns[OF wf_example_confirmed wf_example_rights]
  have "\<exists>tc td tr share ratio.
               getitem example_consolidated ''Total Confirmed'' = Inr tc \<and>
               getitem example_consolidated ''Total Deaths'' = Inr td \<and>
               getitem example_consolidated ''Total Recovered'' = Inr tr \<and>
               getitem example_consolidated ''Share of Recovered - Closed Cases'' = Inr share \<and>
               getitem example_consolidated ''Death to Cases Ratio'' = Inr ratio \<and>
               (\<forall>i<length (rows example_consolidated).
                  share ! i = np_round 2 (fdiv (tr ! i) (fadd (tr ! i) (td ! i))) \<and>
                  ratio ! i = np_round 3 (fdiv (td ! i) (tc ! i)) \<and>
                  (ratio ! i = FNaN \<longleftrightarrow>
                     td ! i = FNaN \<or> tc ! i = FNaN \<or> (td ! i = Fin 0 \<and> tc ! i = Fin 0)))"
    unfolding example_consolidate by simp blast
  then obtain tc td tr share ratio where f:
    "getitem example_consolidated ''Total Confirmed'' = Inr tc"
    "getitem example_consolidated ''Total Deaths'' = Inr td"
    "getitem example_consolidated ''Total Recovered'' = Inr tr"
    "getitem example_consolidated ''Share of Recovered - Closed Cases'' = Inr share"
    "getitem example_consolidated ''Death to Cases Ratio'' = Inr ratio"
    "\<forall>i<length (rows example_consolidated).
        share ! i = np_round 2 (fdiv (tr ! i) (fadd (tr ! i) (td ! i))) \<and>
        ratio ! i = np_round 3 (fdiv (td ! i) (tc ! i)) \<and>
        (ratio ! i = FNaN \<longleftrightarrow>
           td ! i = FNaN \<or> tc ! i = FNaN \<or> (td ! i = Fin 0 \<and> tc ! i = Fin 0))"
    by blast
  from f(1-3) have v: "tc = [Fin 0, Fin 0, Fin 4, Fin 8]" "td = [Fin 0, Fin 5, Fin 1, FNaN]"
    "tr = [Fin 0, Fin 1, Fin 1, Fin 2]"
    by (simp_all add: example_columns)
  have n: "length (rows example_consolidated) = 4"
    by (simp add: example_consolidated_def)
  have i: "(1::nat) < 4" "(2::nat) < 4" by simp_all
  note r1 = f(6)[unfolded n, rule_format, OF i(1)] and r2 = f(6)[unfolded n, rule_format, OF i(2)]
  from r1 r2 have
    "share ! 1 = np_round 2 (fdiv (tr ! 1) (fadd (tr ! 1) (td ! 1)))"
    "ratio ! 2 = np_round 3 (fdiv (td ! 2) (tc ! 2))"
    "ratio ! 1 = np_round 3 (fdiv (td ! 1) (tc ! 1))"
    "ratio ! 1 = FNaN \<longleftrightarrow> td ! 1 = FNaN \<or> tc ! 1 = FNaN \<or> (td ! 1 = Fin 0 \<and> tc ! 1 = Fin 0)"
    by blast+
  then have
    "share ! 1 = np_round 2 (fdiv (Fin 1) (fadd (Fin 1) (Fin 5)))"
    "ratio ! 2 = np_round 3 (fdiv (Fin 1) (Fin 4))"
    "ratio ! 1 = np_round 3 (fdiv (Fin 5) (Fin 0))"
    "ratio ! 1 \<noteq> FNaN"
    unfolding v by simp_all
  with f(4,5) example_consolidate show ?thesis by blast
qed

text \<open>
  The claim as it is written fails in both directions: in the second row the
  denominator \<^verbatim>\<open>Total Confirmed\<close> is 0 and the death ratio is infinite, not
  not-a-number; in the fourth row the denominator is 8 and the ratio is not-a-number,
  because the deaths are missing.
\<close>

theorem ratio_not_nan_counterexample:
  "consolidate example_confirmed example_rights = Inr example_consolidated \<and>
   getitem example_consolidated ''Total Confirmed'' = Inr [Fin 0, Fin 0, Fin 4, Fin 8] \<and>
   getitem example_consolidated ''Total Deaths'' = Inr [Fin 0, Fin 5, Fin 1, FNaN] \<and>
   getitem example_consolidated ''Death to Cases Ratio'' = Inr [FNaN, PInf, Fin (1 / 4), FNaN] \<and>
   [Fin 0, Fin 0, Fin 4, Fin 8] ! 1 = Fin 0 \<and> [FNaN, PInf, Fin (1 / 4), FNaN] ! 1 \<noteq> FNaN \<and>
   [Fin 0, Fin 0, Fin 4, Fin 8] ! 3 \<noteq> Fin 0 \<and> [FNaN, PInf, Fin (1 / 4), FNaN] ! 3 = FNaN"
  using example_consolidate example_columns(1,2) example_ratio_columns(2) by simp

text \<open>
  The claim as it is written counts four joins. There are five \<^verbatim>\<open>pd.merge\<close> calls,
  and the joined frame has the column of the confirmed table and five more.
\<close>

theorem five_merges_counterexample:
  "length merge_steps = 5 \<and> length merge_steps \<noteq> 4 \<and>
   columns (foldl merge_left example_confirmed example_rights) =
     [''Total Confirmed'', ''Daily New Confirmed'', ''Daily New Deaths'', ''Total Deaths'',
      ''Total Recovered'', ''Daily New Recovered'']"
  by (simp add: merge_steps_def example_merge example_merged_def)

lemma example_rights_unique: "list_all (\<lambda>r. distinct (map fst (rows r))) example_rights"
  by code_simp

lemma example_blocks:
  "list_all2 (joined_block (''B'', 1)) example_rights [[Num 0], [NaN], [NaN], [Num 2], [Num 0]]"
  by code_simp

theorem consolidated_left_joins_witness:
  "consolidate example_confirmed example_rights = Inr example_consolidated \<and>
   fst ` set (rows example_consolidated) = fst ` set (rows example_confirmed) \<and>
   map fst (rows example_consolidated) = map fst (rows example_confirmed) \<and>
   ((''B'', 1), [Num 8, Num 0, NaN, NaN, Num 2, Num 0])
     \<in> set (rows (foldl merge_left example_confirmed example_rights)) \<and>
   (\<exists>l\<in>set (rows example_confirmed). \<exists>blocks.
      (''B'', 1) = fst l \<and> [Num 8, Num 0, NaN, NaN, Num 2, Num 0] = snd l @ concat blocks \<and>
      list_all2 (joined_block (''B'', 1)) example_rights blocks) \<and>
   (''B'', 1) \<notin> fst ` set (rows example_deaths) \<and>
   joined_block (''B'', 1) example_deaths [NaN]"
proof -
  from consolidated_left_joins[OF wf_example_confirmed wf_example_rights example_consolidate]
  have ks: "fst ` set (rows example_consolidated) = fst ` set (rows example_confirmed)"
    and k: "list_all (\<lambda>r. distinct (map fst (rows r))) example_rights \<longrightarrow>
            map fst (rows example_consolidated) = map fst (rows example_confirmed)"
    and r: "\<forall>row\<in>set (rows (foldl merge_left example_confirmed example_rights)).
            \<exists>l\<in>set (rows example_confirmed). \<exists>blocks.
              fst row = fst l \<and> snd row = snd l @ concat blocks \<and>
              list_all2 (joined_block (fst row)) example_rights blocks"
    by blast+
  from k example_rights_unique
  have k': "map fst (rows example_consolidated) = map fst (rows example_confirmed)" by blast
  have m: "((''B'', 1), [Num 8, Num 0, NaN, NaN, Num 2, Num 0])
     \<in> set (rows (foldl merge_left example_confirmed example_rights))"
    unfolding example_merge by (simp add: example_merged_def)
  from bspec[OF r m]
  have b: "\<exists>l\<in>set (rows example_confirmed). \<exists>blocks.
      (''B'', 1) = fst l \<and> [Num 8, Num 0, NaN, NaN, Num 2, Num 0] = snd l @ concat blocks \<and>
      list_all2 (joined_block (''B'', 1)) example_rights blocks"
    by simp
  have d: "(''B'', 1) \<notin> fst ` set (rows example_deaths)"
    by (simp add: example_deaths_def)
  then have j: "joined_block (''B'', 1) example_deaths [NaN]"
    by (simp add: joined_block_def example_deaths_def)
  from example_consolidate ks k' m b d j show ?thesis by blast
qed

subsection \<open>The pipeline and its cache\<close>

lemma load_global_first_failure:
  "i < length ds \<Longrightarrow> read_csv w (snd (ds ! i)) = Inl e \<Longrightarrow>
   \<forall>j<i. \<exists>t. read_csv w (snd (ds ! j)) = Inr t \<Longrightarrow>
     load_global w ds acc = (Inl e, map snd (take (Suc i) ds))"
proof (induction ds arbitrary: i acc)
  case Nil
  then show ?case by simp
next
  case (Cons d ds)
  show ?case
  proof (cases i)
    case 0
    with Cons.prems show ?thesis by simp
  next
    case (Suc k)
    from Cons.prems(3) Suc obtain t where t: "read_csv w (snd d) = Inr t" by force
    from Cons.prems Suc have "k < length ds" "read_csv w (snd (ds ! k)) = Inl e"
      "\<forall>j<k. \<exists>t. read_csv w (snd (ds ! j)) = Inr t"
      by auto
    from Cons.IH[OF this] t Suc show ?thesis by simp
  qed
qed

lemma load_global_Inr:
  "load_global w ds acc = (Inr g, req) \<Longrightarrow>
     req = map snd ds \<and> (\<forall>d\<in>set ds. \<exists>t. read_csv w (snd d) = Inr t)"
proof (induction ds arbitrary: acc req)
  case Nil
  then show ?case by simp
next
  case (Cons d ds)
  then show ?case
    by (auto split: sum.splits prod.splits)
qed

lemma first_failure_exists:
  assumes "d \<in> set ds" "read_csv w (snd d) = Inl e0"
  shows "\<exists>i<length ds. \<exists>e. read_csv w (snd (ds ! i)) = Inl e \<and>
           (\<forall>j<i. \<exists>t. read_csv w (snd (ds ! j)) = Inr t)"
proof -
  let ?P = "\<lambda>i. i < length ds \<and> (\<exists>e. read_csv w (snd (ds ! i)) = Inl e)"
  from assms obtain i0 where "?P i0" by (auto simp: in_set_conv_nth)
  then have L: "?P (LEAST i. ?P i)" by (rule LeastI)
  have "\<exists>t. read_csv w (snd (ds ! j)) = Inr t" if "j < (LEAST i. ?P i)" for j
  proof -
    from that have "\<not> ?P j" by (rule not_less_Least)
    moreover from that L have "j < length ds" by simp
    ultimately show ?thesis by (cases "read_csv w (snd (ds ! j))") auto
  qed
  with L show ?thesis by blast
qed

lemma get_datasets_csv_failure:
  assumes "load_global w cssegis_data [] = (Inl e, req)"
  shows "get_datasets to_datetime w = (Inl e, req)"
  using assms by (simp add: get_datasets_def)

lemma memoized_miss_failure:
  assumes "cache_get c now = None" "get_datasets to_datetime w = (Inl e, req)"
  shows "memoized_get_datasets to_datetime w now c = ((Inl e, req), c)"
  using assms by (simp add: memoized_get_datasets_def)

lemma memoized_miss_success:
  assumes "cache_get c now = None" "get_datasets to_datetime w = (Inr rv, req)"
  shows "memoized_get_datasets to_datetime w now c =
           ((Inr rv, req), Some (now + memoize_timeout, rv))"
  using assms by (simp add: memoized_get_datasets_def cache_set_def)

lemma memoized_hit:
  assumes "cache_get c now = Some rv"
  shows "memoized_get_datasets to_datetime w now c = ((Inr rv, []), c)"
  using assms by (simp add: memoized_get_datasets_def)

lemma distinct_urls: "distinct (map snd cssegis_data @ [commits_url])"
  by code_simp

lemma get_datasets_Inr:
  assumes "get_datasets to_datetime w = (Inr b, req)"
  shows "req = map snd cssegis_data @ [commits_url] \<and>
         get_last_commit_date w commits_url = Inr (last_update b) \<and>
         (\<exists>g. load_global w cssegis_data [] = (Inr g, map snd cssegis_data) \<and>
              transform to_datetime g = Inr (datasets b))"
proof -
  obtain res req0 where lg: "load_global w cssegis_data [] = (res, req0)"
    by (cases "load_global w cssegis_data []")
  with assms obtain g where g: "res = Inr g"
    by (cases res) (auto simp: get_datasets_def)
  from load_global_Inr[OF lg[unfolded g]] have req0: "req0 = map snd cssegis_data" by simp
  from assms lg g obtain tables where t: "transform to_datetime g = Inr tables"
    by (cases "transform to_datetime g") (auto simp: get_datasets_def)
  from assms lg g t obtain d where d: "get_last_commit_date w commits_url = Inr d"
    by (cases "get_last_commit_date w commits_url") (auto simp: get_datasets_def)
  from assms lg g t d req0 show ?thesis by (auto simp: get_datasets_def)
qed

lemma get_datasets_metadata_failure:
  assumes "get_last_commit_date w commits_url = Inl e"
  shows "\<exists>e' req. get_datasets to_datetime w = (Inl e', req)"
proof (cases "get_datasets to_datetime w")
  case (Pair res req)
  show ?thesis
  proof (cases res)
    case (Inl e')
    with Pair show ?thesis by simp
  next
    case (Inr b)
    from get_datasets_Inr[OF Pair[unfolded Inr]] assms show ?thesis by simp
  qed
qed

lemma get_last_commit_date_failures:
  "load_json w url = Inl e \<Longrightarrow> get_last_commit_date w url = Inl e"
  "load_json w url = Inr (JArray []) \<Longrightarrow> get_last_commit_date w url = Inl IndexError"
  "load_json w url = Inr (JArray (JObject kvs # cs)) \<Longrightarrow> map_of (rev kvs) ''commit'' = None \<Longrightarrow>
     get_last_commit_date w url = Inl (KeyError ''commit'')"
  by (simp_all add: get_last_commit_date_def and_then_simps)

lemma load_global_requests: "\<exists>n. snd (load_global w ds acc) = take n (map snd ds)"
proof (induction ds arbitrary: acc)
  case Nil
  then show ?case by simp
next
  case (Cons d ds)
  show ?case
  proof (cases "read_csv w (snd d)")
    case (Inl e)
    then have "snd (load_global w (d # ds) acc) = take 1 (map snd (d # ds))" by simp
    then show ?thesis by blast
  next
    case (Inr t)
    from Cons.IH[of "dict_set acc (fst d) (clean_data t)"] obtain n where
      "snd (load_global w ds (dict_set acc (fst d) (clean_data t))) = take n (map snd ds)"
      by blast
    with Inr have "snd (load_global w (d # ds) acc) = take (Suc n) (map snd (d # ds))"
      by (auto split: prod.splits)
    then show ?thesis by blast
  qed
qed

lemma get_datasets_requests:
  "\<exists>n. snd (get_datasets to_datetime w) = take n (map snd cssegis_data @ [commits_url])"
proof -
  obtain res req where lg: "load_global w cssegis_data [] = (res, req)"
    by (cases "load_global w cssegis_data []")
  from load_global_requests[of w cssegis_data "[]"] lg obtain n where
    n: "req = take n (map snd cssegis_data)" by auto
  show ?thesis
  proof (cases res)
    case (Inl e)
    with lg have "snd (get_datasets to_datetime w) = req" by (simp add: get_datasets_def)
    also have "req = take (min n (length cssegis_data)) (map snd cssegis_data @ [commits_url])"
      unfolding n by (cases "n \<le> length cssegis_data") (simp_all add: min_def)
    finally show ?thesis by blast
  next
    case (Inr g)
    from load_global_Inr[OF lg[unfolded Inr]] have req: "req = map snd cssegis_data" by simp
    show ?thesis
    proof (cases "transform to_datetime g")
      case (Inl e)
      with lg Inr have "snd (get_datasets to_datetime w) = req" by (simp add: get_datasets_def)
      also have "req = take (length cssegis_data) (map snd cssegis_data @ [commits_url])"
        unfolding req by simp
      finally show ?thesis by blast
    next
      case t: (Inr tables)
      with lg Inr have "snd (get_datasets to_datetime w) = req @ [commits_url]"
        by (simp add: get_datasets_def split: sum.splits)
      also have "req @ [commits_url] =
          take (Suc (length cssegis_data)) (map snd cssegis_data @ [commits_url])"
        unfolding req by simp
      finally show ?thesis by blast
    qed
  qed
qed

lemma distinct_requests: "distinct (snd (get_datasets to_datetime w))"
proof -
  from get_datasets_requests[of to_datetime w] obtain n where
    "snd (get_datasets to_datetime w) = take n (map snd cssegis_data @ [commits_url])" by blast
  with distinct_urls show ?thesis by (simp only: distinct_take)
qed

lemma cache_get_fresh: "now \<le> expires \<Longrightarrow> cache_get (Some (expires, rv)) now = Some rv"
  by (simp add: cache_get_def)

lemma cache_get_stale: "expires < now \<Longrightarrow> cache_get (Some (expires, rv)) now = None"
  by (simp add: cache_get_def)

text \<open>The dictionary keys and column names computed from the identifiers.\<close>

lemma key_case_types:
  "key_to_case_type TS_COVID19_CONFIRMED_GLOBAL = ''Confirmed''"
  "key_to_case_type TS_COVID19_DEATHS_GLOBAL = ''Deaths''"
  "key_to_case_type TS_COVID19_RECOVERED_GLOBAL = ''Recovered''"
  "key_to_case_type TS_COVID19_CONFIRMED_COUNTRY = ''Confirmed''"
  "key_to_case_type TS_COVID19_DEATHS_COUNTRY = ''Deaths''"
  "key_to_case_type TS_COVID19_RECOVERED_COUNTRY = ''Recovered''"
  by code_simp+

lemma country_keys:
  "py_replace ''global'' ''country'' TS_COVID19_CONFIRMED_GLOBAL = TS_COVID19_CONFIRMED_COUNTRY"
  "py_replace ''global'' ''country'' TS_COVID19_DEATHS_GLOBAL = TS_COVID19_DEATHS_COUNTRY"
  "py_replace ''global'' ''country'' TS_COVID19_RECOVERED_GLOBAL = TS_COVID19_RECOVERED_COUNTRY"
  by code_simp+

lemma daily_keys:
  "py_replace ''_covid19_'' ''_covid19_daily_new_'' TS_COVID19_CONFIRMED_COUNTRY =
     TS_COVID19_DAILY_NEW_CONFIRMED_COUNTRY"
  "py_replace ''_covid19_'' ''_covid19_daily_new_'' TS_COVID19_DEATHS_COUNTRY =
     TS_COVID19_DAILY_NEW_DEATHS_COUNTRY"
  "py_replace ''_covid19_'' ''_covid19_daily_new_'' TS_COVID19_RECOVERED_COUNTRY =
     TS_COVID19_DAILY_NEW_RECOVERED_COUNTRY"
  by code_simp+

lemma keys_neq:
  "TS_COVID19_CONFIRMED_GLOBAL \<noteq> TS_COVID19_DEATHS_GLOBAL"
  "TS_COVID19_CONFIRMED_GLOBAL \<noteq> TS_COVID19_RECOVERED_GLOBAL"
  "TS_COVID19_DEATHS_GLOBAL \<noteq> TS_COVID19_CONFIRMED_GLOBAL"
  "TS_COVID19_DEATHS_GLOBAL \<noteq> TS_COVID19_RECOVERED_GLOBAL"
  "TS_COVID19_RECOVERED_GLOBAL \<noteq> TS_COVID19_CONFIRMED_GLOBAL"
  "TS_COVID19_RECOVERED_GLOBAL \<noteq> TS_COVID19_DEATHS_GLOBAL"
  "TS_COVID19_CONFIRMED_COUNTRY \<noteq> TS_COVID19_DEATHS_COUNTRY"
  "TS_COVID19_CONFIRMED_COUNTRY \<noteq> TS_COVID19_RECOVERED_COUNTRY"
  "TS_COVID19_DEATHS_COUNTRY \<noteq> TS_COVID19_CONFIRMED_COUNTRY"
  "TS_COVID19_DEATHS_COUNTRY \<noteq> TS_COVID19_RECOVERED_COUNTRY"
  "TS_COVID19_RECOVERED_COUNTRY \<noteq> TS_COVID19_CONFIRMED_COUNTRY"
  "TS_COVID19_RECOVERED_COUNTRY \<noteq> TS_COVID19_DEATHS_COUNTRY"
  "TS_COVID19_DAILY_NEW_CONFIRMED_COUNTRY \<noteq> TS_COVID19_DAILY_NEW_DEATHS_COUNTRY"
  "TS_COVID19_DAILY_NEW_CONFIRMED_COUNTRY \<noteq> TS_COVID19_DAILY_NEW_RECOVERED_COUNTRY"
  "TS_COVID19_DAILY_NEW_DEATHS_COUNTRY \<noteq> TS_COVID19_DAILY_NEW_CONFIRMED_COUNTRY"
  "TS_COVID19_DAILY_NEW_DEATHS_COUNTRY \<noteq> TS_COVID19_DAILY_NEW_RECOVERED_COUNTRY"
  "TS_COVID19_DAILY_NEW_RECOVERED_COUNTRY \<noteq> TS_COVID19_DAILY_NEW_CONFIRMED_COUNTRY"
  "TS_COVID19_DAILY_NEW_RECOVERED_COUNTRY \<noteq> TS_COVID19_DAILY_NEW_DEATHS_COUNTRY"
  by (simp_all add: TS_COVID19_CONFIRMED_GLOBAL_def TS_COVID19_DEATHS_GLOBAL_def TS_COVID19_RECOVERED_GLOBAL_def TS_COVID19_CONFIRMED_COUNTRY_def TS_COVID19_DEATHS_COUNTRY_def TS_COVID19_RECOVERED_COUNTRY_def TS_COVID19_DAILY_NEW_CONFIRMED_COUNTRY_def TS_COVID19_DAILY_NEW_DEATHS_COUNTRY_def TS_COVID19_DAILY_NEW_RECOVERED_COUNTRY_def)

lemma load_global_success:
  assumes "read_csv w (snd (cssegis_data ! 0)) = Inr r1"
    and "read_csv w (snd (cssegis_data ! 1)) = Inr r2"
    and "read_csv w (snd (cssegis_data ! 2)) = Inr r3"
  shows "load_global w cssegis_data [] =
           (Inr [(TS_COVID19_CONFIRMED_GLOBAL, clean_data r1),
                 (TS_COVID19_DEATHS_GLOBAL, clean_data r2),
                 (TS_COVID19_RECOVERED_GLOBAL, clean_data r3)], map snd cssegis_data)"
  using assms by (simp add: cssegis_data_def keys_neq)

lemma load_country_success:
  assumes "country_data to_datetime t1 ''Cases'' ''Total Confirmed'' = Inr c1"
    and "country_data to_datetime t2 ''Cases'' ''Total Deaths'' = Inr c2"
    and "country_data to_datetime t3 ''Cases'' ''Total Recovered'' = Inr c3"
  shows "load_country to_datetime
           [(TS_COVID19_CONFIRMED_GLOBAL, t1), (TS_COVID19_DEATHS_GLOBAL, t2),
            (TS_COVID19_RECOVERED_GLOBAL, t3)] [] =
         Inr [(TS_COVID19_CONFIRMED_COUNTRY, c1), (TS_COVID19_DEATHS_COUNTRY, c2),
              (TS_COVID19_RECOVERED_COUNTRY, c3)]"
  using assms
  by (simp add: key_case_types country_keys and_then_simps keys_neq)

lemma load_daily_success:
  "load_daily
     [(TS_COVID19_CONFIRMED_COUNTRY, c1), (TS_COVID19_DEATHS_COUNTRY, c2),
      (TS_COVID19_RECOVERED_COUNTRY, c3)] [] =
   [(TS_COVID19_DAILY_NEW_CONFIRMED_COUNTRY, daily_data c1 ''Total Confirmed'' ''Daily New Confirmed''),
    (TS_COVID19_DAILY_NEW_DEATHS_COUNTRY, daily_data c2 ''Total Deaths'' ''Daily New Deaths''),
    (TS_COVID19_DAILY_NEW_RECOVERED_COUNTRY, daily_data c3 ''Total Recovered'' ''Daily New Recovered'')]"
  by (simp add: key_case_types daily_keys Let_def keys_neq)

lemma lookup_steps_success:
  "lookup_steps
     [(TS_COVID19_CONFIRMED_COUNTRY, c1), (TS_COVID19_DEATHS_COUNTRY, c2),
      (TS_COVID19_RECOVERED_COUNTRY, c3)]
     [(TS_COVID19_DAILY_NEW_CONFIRMED_COUNTRY, d1), (TS_COVID19_DAILY_NEW_DEATHS_COUNTRY, d2),
      (TS_COVID19_DAILY_NEW_RECOVERED_COUNTRY, d3)] merge_steps =
   Inr [d1, d2, c2, c3, d3]"
  by (simp add: merge_steps_def dict_get_def and_then_simps keys_neq)

lemma groupby_diff_lengths:
  "\<forall>r\<in>set rs. length (snd r) = n \<Longrightarrow> \<forall>c ps. prev c = Some ps \<longrightarrow> length ps = n \<Longrightarrow>
     \<forall>r\<in>set (groupby_diff prev rs). length (snd r) = n"
proof (induction rs arbitrary: prev)
  case Nil
  then show ?case by simp
next
  case (Cons r rs)
  let ?prev = "prev(fst (fst r) \<mapsto> snd r)"
  from Cons.prems have 1: "\<forall>r\<in>set rs. length (snd r) = n" by simp
  from Cons.prems have 2: "\<forall>c ps. ?prev c = Some ps \<longrightarrow> length ps = n" by simp
  have tl: "\<forall>x\<in>set (groupby_diff ?prev rs). length (snd x) = n"
    using 1 2 by (rule Cons.IH)
  have hd: "length (case prev (fst (fst r)) of None \<Rightarrow> map (\<lambda>_. NaN) (snd r)
                   | Some ps \<Rightarrow> map2 sub_cell (snd r) ps) = n"
    using Cons.prems by (auto split: option.splits)
  from hd tl show ?case by simp
qed

lemma columns_daily_data:
  "columns (daily_data t oldname newname) = map (\<lambda>c. if c = oldname then newname else c) (columns t)"
  by (simp add: daily_data_def rename_columns_def fillna_def)

lemma wf_daily_data: "wf_frame t \<Longrightarrow> wf_frame (daily_data t oldname newname)"
  using groupby_diff_lengths[of "rows t" "length (columns t)" Map.empty]
  by (auto simp: wf_frame_def list_all_iff rows_daily_data columns_daily_data)

lemma consolidate_success:
  assumes w: "wf_frame c1" "wf_frame c2" "wf_frame c3"
    and c: "columns c1 = [''Total Confirmed'']" "columns c2 = [''Total Deaths'']"
      "columns c3 = [''Total Recovered'']"
  shows "\<exists>cf. consolidate c1
           [daily_data c1 ''Total Confirmed'' ''Daily New Confirmed'',
            daily_data c2 ''Total Deaths'' ''Daily New Deaths'', c2, c3,
            daily_data c3 ''Total Recovered'' ''Daily New Recovered''] = Inr cf"
proof -
  let ?rights = "[daily_data c1 ''Total Confirmed'' ''Daily New Confirmed'',
            daily_data c2 ''Total Deaths'' ''Daily New Deaths'', c2, c3,
            daily_data c3 ''Total Recovered'' ''Daily New Recovered'']"
  let ?m = "foldl merge_left c1 ?rights"
  have cols: "columns ?m =
     [''Total Confirmed'', ''Daily New Confirmed'', ''Daily New Deaths'', ''Total Deaths'',
      ''Total Recovered'', ''Daily New Recovered'']"
    by (subst columns_foldl_merge_left) (simp_all add: c columns_daily_data)
  have "wf_frame ?m"
    by (rule wf_foldl_merge_left) (simp_all add: w wf_daily_data)
  then have wf: "wf_frame (astype_float ?m)" by (rule wf_astype_float)
  have cf: "columns (astype_float ?m) = columns ?m" by (simp add: astype_float_def)
  from derive_columns_cases[OF wf] show ?thesis
    unfolding consolidate_def cf cols by auto
qed

lemma transform_success:
  assumes "country_data to_datetime t1 ''Cases'' ''Total Confirmed'' = Inr c1"
    and "country_data to_datetime t2 ''Cases'' ''Total Deaths'' = Inr c2"
    and "country_data to_datetime t3 ''Cases'' ''Total Recovered'' = Inr c3"
  shows "\<exists>tables. transform to_datetime
           [(TS_COVID19_CONFIRMED_GLOBAL, t1), (TS_COVID19_DEATHS_GLOBAL, t2),
            (TS_COVID19_RECOVERED_GLOBAL, t3)] = Inr tables"
proof -
  from consolidate_success[OF wf_country_data[OF assms(1)] wf_country_data[OF assms(2)]
      wf_country_data[OF assms(3)] country_data_columns[OF assms(1)]
      country_data_columns[OF assms(2)] country_data_columns[OF assms(3)]]
  obtain cf where "consolidate c1
           [daily_data c1 ''Total Confirmed'' ''Daily New Confirmed'',
            daily_data c2 ''Total Deaths'' ''Daily New Deaths'', c2, c3,
            daily_data c3 ''Total Recovered'' ''Daily New Recovered''] = Inr cf" by blast
  note cf = this
  have dg: "dict_get [(TS_COVID19_CONFIRMED_COUNTRY, c1), (TS_COVID19_DEATHS_COUNTRY, c2),
              (TS_COVID19_RECOVERED_COUNTRY, c3)] TS_COVID19_CONFIRMED_COUNTRY = Inr c1"
    by (simp add: dict_get_def)
  show ?thesis
    unfolding transform_def load_country_success[OF assms] and_then_simps Let_def
      load_daily_success dg lookup_steps_success cf
    by blast
qed

lemma get_datasets_success:
  assumes "read_csv w (snd (cssegis_data ! 0)) = Inr r1"
    and "read_csv w (snd (cssegis_data ! 1)) = Inr r2"
    and "read_csv w (snd (cssegis_data ! 2)) = Inr r3"
    and "country_data to_datetime (clean_data r1) ''Cases'' ''Total Confirmed'' = Inr c1"
    and "country_data to_datetime (clean_data r2) ''Cases'' ''Total Deaths'' = Inr c2"
    and "country_data to_datetime (clean_data r3) ''Cases'' ''Total Recovered'' = Inr c3"
  shows "\<exists>tables.
           transform to_datetime
             [(TS_COVID19_CONFIRMED_GLOBAL, clean_data r1),
              (TS_COVID19_DEATHS_GLOBAL, clean_data r2),
              (TS_COVID19_RECOVERED_GLOBAL, clean_data r3)] = Inr tables \<and>
           get_datasets to_datetime w =
             (case get_last_commit_date w commits_url of
                Inl e \<Rightarrow> (Inl e, map snd cssegis_data @ [commits_url])
              | Inr d \<Rightarrow> (Inr \<lparr>datasets = tables, last_update = d\<rparr>,
                          map snd cssegis_data @ [commits_url]))"
proof -
  from transform_success[OF assms(4-6)] obtain tables where
    t: "transform to_datetime
             [(TS_COVID19_CONFIRMED_GLOBAL, clean_data r1),
              (TS_COVID19_DEATHS_GLOBAL, clean_data r2),
              (TS_COVID19_RECOVERED_GLOBAL, clean_data r3)] = Inr tables" by blast
  have "get_datasets to_datetime w =
             (case get_last_commit_date w commits_url of
                Inl e \<Rightarrow> (Inl e, map snd cssegis_data @ [commits_url])
              | Inr d \<Rightarrow> (Inr \<lparr>datasets = tables, last_update = d\<rparr>,
                          map snd cssegis_data @ [commits_url]))"
    by (simp add: get_datasets_def load_global_success[OF assms(1-3)] t split: sum.splits)
  with t show ?thesis by blast
qed

text \<open>Runs of the pipeline on the example remote sides.\<close>

lemma example_small_country:
  "country_data to_datetime_mdy (clean_data example_raw_small) ''Cases'' ''Total Confirmed'' =
     Inr \<lparr>columns = [''Total Confirmed''],
           rows = [((''A'', 2020, 1, 22), [Num 1]), ((''A'', 2020, 1, 23), [Num 3])]\<rparr>"
  "country_data to_datetime_mdy (clean_data example_raw_small) ''Cases'' ''Total Deaths'' =
     Inr \<lparr>columns = [''Total Deaths''],
           rows = [((''A'', 2020, 1, 22), [Num 1]), ((''A'', 2020, 1, 23), [Num 3])]\<rparr>"
  "country_data to_datetime_mdy (clean_data example_raw_small) ''Cases'' ''Total Recovered'' =
     Inr \<lparr>columns = [''Total Recovered''],
           rows = [((''A'', 2020, 1, 22), [Num 1]), ((''A'', 2020, 1, 23), [Num 3])]\<rparr>"
  by code_simp+

lemma example_commit_date:
  "get_last_commit_date example_world commits_url = Inr (JString ''2020-04-01T23:45:10Z'')"
  by (simp add: get_last_commit_date_def example_world_def example_commits_def
      and_then_simps)

lemma example_no_commit_date:
  "get_last_commit_date example_world_no_metadata commits_url = Inl URLError"
  by (simp add: get_last_commit_date_def example_world_no_metadata_def and_then_simps)

lemma example_run:
  "get_datasets to_datetime_mdy example_world =
     (Inr example_bundle, map snd cssegis_data @ [commits_url])"
proof -
  have r: "read_csv example_world url = Inr example_raw_small" for url
    by (simp add: example_world_def)
  from get_datasets_success[OF r r r example_small_country]
  obtain tables where
    "get_datasets to_datetime_mdy example_world =
       (Inr \<lparr>datasets = tables, last_update = JString ''2020-04-01T23:45:10Z''\<rparr>,
        map snd cssegis_data @ [commits_url])"
    unfolding example_commit_date by auto
  then show ?thesis by (simp add: example_bundle_def)
qed

lemma example_last_update: "last_update example_bundle = JString ''2020-04-01T23:45:10Z''"
  using get_datasets_Inr[OF example_run] example_commit_date by simp

lemma example_no_metadata_tables:
  "\<exists>g tables. load_global example_world_no_metadata cssegis_data [] = (Inr g, map snd cssegis_data) \<and>
     transform to_datetime_mdy g = Inr tables"
proof -
  have r: "read_csv example_world_no_metadata url = Inr example_raw_small" for url
    by (simp add: example_world_no_metadata_def)
  from get_datasets_success[OF r r r example_small_country] load_global_success[OF r r r]
  show ?thesis by blast
qed

lemma example_no_deaths_run:
  "get_datasets to_datetime_mdy example_world_no_deaths =
     (Inl (HTTPError 404), map snd (take 2 cssegis_data))"
proof -
  have 0: "read_csv example_world_no_deaths (snd (cssegis_data ! 0)) = Inr example_raw_small"
    by (simp add: example_world_no_deaths_def cssegis_data_def)
  have 1: "read_csv example_world_no_deaths (snd (cssegis_data ! 1)) = Inl (HTTPError 404)"
    by (simp add: example_world_no_deaths_def)
  have "load_global example_world_no_deaths cssegis_data [] =
          (Inl (HTTPError 404), map snd (take (Suc 1) cssegis_data))"
    using 0 by (intro load_global_first_failure 1) (simp_all add: cssegis_data_def)
  then show ?thesis by (simp add: get_datasets_def numeral_2_eq_2)
qed

text \<open>
  C1 (amended): a failure of the metadata request is not caught. When
  \<^verbatim>\<open>_get_last_commit_date\<close> raises, \<^verbatim>\<open>get_datasets\<close> raises too and returns no
  bundle; when the tables had been computed, the exception is that of the metadata
  request, raised after all four requests, and the decorator stores nothing. A bundle
  that is returned carries the committer date of the first commit.
\<close>

theorem metadata_failure_propagates:
  "(get_last_commit_date w commits_url = Inl e \<longrightarrow>
      (\<exists>e' req. get_datasets to_datetime w = (Inl e', req)) \<and>
      (\<forall>g tables.
         load_global w cssegis_data [] = (Inr g, map snd cssegis_data) \<and>
         transform to_datetime g = Inr tables \<longrightarrow>
           get_datasets to_datetime w = (Inl e, map snd cssegis_data @ [commits_url]) \<and>
           (cache_get c now = None \<longrightarrow>
              memoized_get_datasets to_datetime w now c =
                ((Inl e, map snd cssegis_data @ [commits_url]), c)))) \<and>
   (get_datasets to_datetime w = (Inr b, req) \<longrightarrow>
      get_last_commit_date w commits_url = Inr (last_update b))"
proof (intro conjI impI allI)
  assume "get_last_commit_date w commits_url = Inl e"
  then show "\<exists>e' req. get_datasets to_datetime w = (Inl e', req)"
    by (rule get_datasets_metadata_failure)
next
  fix g tables
  assume m: "get_last_commit_date w commits_url = Inl e"
    and d: "load_global w cssegis_data [] = (Inr g, map snd cssegis_data) \<and>
            transform to_datetime g = Inr tables"
  then show r: "get_datasets to_datetime w = (Inl e, map snd cssegis_data @ [commits_url])"
    by (simp add: get_datasets_def)
  assume "cache_get c now = None"
  from memoized_miss_failure[OF this r]
  show "memoized_get_datasets to_datetime w now c =
          ((Inl e, map snd cssegis_data @ [commits_url]), c)" .
next
  assume "get_datasets to_datetime w = (Inr b, req)"
  from get_datasets_Inr[OF this]
  show "get_last_commit_date w commits_url = Inr (last_update b)" by simp
qed

theorem metadata_failure_propagates_witness:
  "get_last_commit_date example_world_no_metadata commits_url = Inl URLError \<and>
   (\<exists>e' req. get_datasets to_datetime_mdy example_world_no_metadata = (Inl e', req)) \<and>
   cache_get (None :: (nat \<times> nat \<times> nat) cache) 0 = None \<and>
   memoized_get_datasets to_datetime_mdy example_world_no_metadata 0 None =
     ((Inl URLError, map snd cssegis_data @ [commits_url]), None) \<and>
   get_datasets to_datetime_mdy example_world =
     (Inr example_bundle, map snd cssegis_data @ [commits_url]) \<and>
   get_last_commit_date example_world commits_url = Inr (last_update example_bundle)"
proof -
  note fail = metadata_failure_propagates[of example_world_no_metadata URLError to_datetime_mdy
      None 0 example_bundle "[]"]
  note ok = metadata_failure_propagates[of example_world URLError to_datetime_mdy
      None 0 example_bundle "map snd cssegis_data @ [commits_url]"]
  have c: "cache_get (None :: (nat \<times> nat \<times> nat) cache) 0 = None"
    by (simp add: cache_get_def)
  from example_no_metadata_tables obtain g tables where
    g: "load_global example_world_no_metadata cssegis_data [] = (Inr g, map snd cssegis_data) \<and>
        transform to_datetime_mdy g = Inr tables" by blast
  from fail example_no_commit_date
  have 1: "\<exists>e' req. get_datasets to_datetime_mdy example_world_no_metadata = (Inl e', req)"
    and 2: "\<forall>g tables.
         load_global example_world_no_metadata cssegis_data [] = (Inr g, map snd cssegis_data) \<and>
         transform to_datetime_mdy g = Inr tables \<longrightarrow>
           get_datasets to_datetime_mdy example_world_no_metadata =
             (Inl URLError, map snd cssegis_data @ [commits_url]) \<and>
           (cache_get (None :: (nat \<times> nat \<times> nat) cache) 0 = None \<longrightarrow>
              memoized_get_datasets to_datetime_mdy example_world_no_metadata 0 None =
                ((Inl URLError, map snd cssegis_data @ [commits_url]), None))"
    by blast+
  from 2 g c have 3: "memoized_get_datasets to_datetime_mdy example_world_no_metadata 0 None =
                ((Inl URLError, map snd cssegis_data @ [commits_url]), None)"
    by blast
  from ok example_run
  have 4: "get_last_commit_date example_world commits_url = Inr (last_update example_bundle)"
    by blast
  from example_no_commit_date 1 c 3 example_run 4 show ?thesis by blast
qed

text \<open>
  The claim as it is written asks for a bundle with a sentinel date. With a metadata
  endpoint that cannot be reached the call ends in \<^verbatim>\<open>URLError\<close>.
\<close>

theorem metadata_failure_counterexample:
  "get_last_commit_date example_world_no_metadata commits_url = Inl URLError \<and>
   get_datasets to_datetime_mdy example_world_no_metadata =
     (Inl URLError, map snd cssegis_data @ [commits_url])"
proof -
  have r: "read_csv example_world_no_metadata url = Inr example_raw_small" for url
    by (simp add: example_world_no_metadata_def)
  from get_datasets_success[OF r r r example_small_country] example_no_commit_date
  show ?thesis by auto
qed

text \<open>
  C9: when one of the three CSV resources cannot be read, \<^verbatim>\<open>get_datasets\<close> raises
  the exception of the first resource that fails, unchanged; the resources before it
  were requested once each, nothing was requested after it, and a call that missed the
  cache leaves the cache as it was.
\<close>

theorem csv_failure_propagates:
  assumes "d \<in> set cssegis_data" "read_csv w (snd d) = Inl e0"
  shows "\<exists>i<length cssegis_data. \<exists>e.
           read_csv w (snd (cssegis_data ! i)) = Inl e \<and>
           (\<forall>j<i. \<exists>t. read_csv w (snd (cssegis_data ! j)) = Inr t) \<and>
           get_datasets to_datetime w = (Inl e, map snd (take (Suc i) cssegis_data)) \<and>
           distinct (map snd (take (Suc i) cssegis_data)) \<and>
           commits_url \<notin> set (map snd (take (Suc i) cssegis_data)) \<and>
           (cache_get c now = None \<longrightarrow>
              memoized_get_datasets to_datetime w now c =
                ((Inl e, map snd (take (Suc i) cssegis_data)), c))"
proof -
  from first_failure_exists[OF assms] obtain i e where
    i: "i < length cssegis_data" "read_csv w (snd (cssegis_data ! i)) = Inl e"
    "\<forall>j<i. \<exists>t. read_csv w (snd (cssegis_data ! j)) = Inr t"
    by blast
  let ?req = "map snd (take (Suc i) cssegis_data)"
  from load_global_first_failure[OF i, of "[]"]
  have g: "get_datasets to_datetime w = (Inl e, ?req)" by (rule get_datasets_csv_failure)
  have eq: "?req = take (Suc i) (map snd cssegis_data)" by (rule take_map[symmetric])
  from distinct_urls have d: "distinct (map snd cssegis_data)" "commits_url \<notin> set (map snd cssegis_data)"
    by simp_all
  from d(1) have d1: "distinct ?req" unfolding eq by (rule distinct_take)
  from d(2) have d2: "commits_url \<notin> set ?req" unfolding eq by (auto dest: in_set_takeD)
  have m: "cache_get c now = None \<longrightarrow>
              memoized_get_datasets to_datetime w now c = ((Inl e, ?req), c)"
    using memoized_miss_failure[OF _ g] by blast
  from i(2,3) g d1 d2 m
  have "\<exists>e. read_csv w (snd (cssegis_data ! i)) = Inl e \<and>
           (\<forall>j<i. \<exists>t. read_csv w (snd (cssegis_data ! j)) = Inr t) \<and>
           get_datasets to_datetime w = (Inl e, ?req) \<and>
           distinct ?req \<and> commits_url \<notin> set ?req \<and>
           (cache_get c now = None \<longrightarrow>
              memoized_get_datasets to_datetime w now c = ((Inl e, ?req), c))"
    by (intro exI[of _ e] conjI)
  with i(1) show ?thesis by (intro exI[of _ i] conjI)
qed

theorem csv_failure_propagates_witness:
  "cssegis_data ! 1 \<in> set cssegis_data \<and>
   read_csv example_world_no_deaths (snd (cssegis_data ! 1)) = Inl (HTTPError 404) \<and>
   get_datasets to_datetime_mdy example_world_no_deaths =
     (Inl (HTTPError 404), map snd (take 2 cssegis_data)) \<and>
   cache_get (Some (100, example_bundle)) 1000 = None \<and>
   memoized_get_datasets to_datetime_mdy example_world_no_deaths 1000 (Some (100, example_bundle)) =
     ((Inl (HTTPError 404), map snd (take 2 cssegis_data)), Some (100, example_bundle))"
proof -
  have d: "cssegis_data ! 1 \<in> set cssegis_data" by (simp add: cssegis_data_def)
  have f: "read_csv example_world_no_deaths (snd (cssegis_data ! 1)) = Inl (HTTPError 404)"
    by (simp add: example_world_no_deaths_def)
  have c: "cache_get (Some (100, example_bundle)) 1000 = None"
    by (simp add: cache_get_def)
  from csv_failure_propagates[OF d f, of to_datetime_mdy "Some (100, example_bundle)" 1000]
  obtain i e where
    g: "get_datasets to_datetime_mdy example_world_no_deaths =
          (Inl e, map snd (take (Suc i) cssegis_data))"
    and m: "cache_get (Some (100, example_bundle)) 1000 = None \<longrightarrow>
            memoized_get_datasets to_datetime_mdy example_world_no_deaths 1000
              (Some (100, example_bundle)) =
            ((Inl e, map snd (take (Suc i) cssegis_data)), Some (100, example_bundle))"
    by (elim exE conjE) (rule that)
  from g have "(Inl e, map snd (take (Suc i) cssegis_data)) =
               (Inl (HTTPError 404) :: error + (nat \<times> nat \<times> nat) dataset_bundle,
                map snd (take 2 cssegis_data))"
    unfolding example_no_deaths_run by (rule sym)
  with m c have "memoized_get_datasets to_datetime_mdy example_world_no_deaths 1000
              (Some (100, example_bundle)) =
            ((Inl (HTTPError 404), map snd (take 2 cssegis_data)), Some (100, example_bundle))"
    by simp
  with d f c example_no_deaths_run show ?thesis by blast
qed

text \<open>
  C8: the timeout is 360. After a call that missed the cache and returned a bundle, the
  entry expires 360 after the time of the call; any call before that time returns the
  same bundle without any request, whatever the remote side has become; a call after
  that time runs the pipeline once (every URL requested at most once, all four when it
  returns a bundle) and stores the new bundle.
\<close>

theorem memoize_ttl:
  assumes "cache_get c t1 = None" "get_datasets to_datetime w1 = (Inr b, req)"
  shows "memoize_timeout = 360 \<and>
         memoized_get_datasets to_datetime w1 t1 c = ((Inr b, req), Some (t1 + 360, b)) \<and>
         req = map snd cssegis_data @ [commits_url] \<and>
         (\<forall>t2 w2. t2 < t1 + 360 \<longrightarrow>
            memoized_get_datasets to_datetime w2 t2 (Some (t1 + 360, b)) =
              ((Inr b, []), Some (t1 + 360, b))) \<and>
         (\<forall>t2 w2. t1 + 360 < t2 \<longrightarrow>
            fst (memoized_get_datasets to_datetime w2 t2 (Some (t1 + 360, b))) =
              get_datasets to_datetime w2 \<and>
            distinct (snd (get_datasets to_datetime w2)) \<and>
            (\<forall>b2 req2. get_datasets to_datetime w2 = (Inr b2, req2) \<longrightarrow>
               req2 = map snd cssegis_data @ [commits_url] \<and>
               snd (memoized_get_datasets to_datetime w2 t2 (Some (t1 + 360, b))) =
                 Some (t2 + 360, b2)))"
proof -
  have t: "memoize_timeout = 360" by (simp add: memoize_timeout_def)
  have first: "memoized_get_datasets to_datetime w1 t1 c = ((Inr b, req), Some (t1 + 360, b))"
    using memoized_miss_success[OF assms] t by simp
  have req: "req = map snd cssegis_data @ [commits_url]"
    using get_datasets_Inr[OF assms(2)] by simp
  have hit: "memoized_get_datasets to_datetime w2 t2 (Some (t1 + 360, b)) =
              ((Inr b, []), Some (t1 + 360, b))" if "t2 < t1 + 360" for t2 w2
    using that by (intro memoized_hit cache_get_fresh) simp
  have miss: "fst (memoized_get_datasets to_datetime w2 t2 (Some (t1 + 360, b))) =
              get_datasets to_datetime w2 \<and>
            distinct (snd (get_datasets to_datetime w2)) \<and>
            (\<forall>b2 req2. get_datasets to_datetime w2 = (Inr b2, req2) \<longrightarrow>
               req2 = map snd cssegis_data @ [commits_url] \<and>
               snd (memoized_get_datasets to_datetime w2 t2 (Some (t1 + 360, b))) =
                 Some (t2 + 360, b2))" if "t1 + 360 < t2" for t2 w2
  proof -
    from that have stale: "cache_get (Some (t1 + 360, b)) t2 = None" by (rule cache_get_stale)
    obtain res req2 where g: "get_datasets to_datetime w2 = (res, req2)"
      by (cases "get_datasets to_datetime w2")
    have 1: "fst (memoized_get_datasets to_datetime w2 t2 (Some (t1 + 360, b))) =
              get_datasets to_datetime w2"
      using stale g by (cases res) (simp_all add: memoized_get_datasets_def)
    have 2: "req2 = map snd cssegis_data @ [commits_url] \<and>
             snd (memoized_get_datasets to_datetime w2 t2 (Some (t1 + 360, b))) = Some (t2 + 360, b2)"
      if "get_datasets to_datetime w2 = (Inr b2, req2)" for b2 req2
      using memoized_miss_success[OF stale that] get_datasets_Inr[OF that] t by simp
    from 1 2 distinct_requests[of to_datetime w2] show ?thesis by blast
  qed
  from t first req hit miss show ?thesis by blast
qed

theorem memoize_ttl_witness:
  "cache_get (None :: (nat \<times> nat \<times> nat) cache) 1000 = None \<and>
   get_datasets to_datetime_mdy example_world =
     (Inr example_bundle, map snd cssegis_data @ [commits_url]) \<and>
   memoized_get_datasets to_datetime_mdy example_world 1000 None =
     ((Inr example_bundle, map snd cssegis_data @ [commits_url]), Some (1360, example_bundle)) \<and>
   memoized_get_datasets to_datetime_mdy example_world_no_metadata 1200 (Some (1360, example_bundle)) =
     ((Inr example_bundle, []), Some (1360, example_bundle)) \<and>
   fst (memoized_get_datasets to_datetime_mdy example_world 1361 (Some (1360, example_bundle))) =
     get_datasets to_datetime_mdy example_world \<and>
   snd (memoized_get_datasets to_datetime_mdy example_world 1361 (Some (1360, example_bundle))) =
     Some (1721, example_bundle)"
proof -
  have c: "cache_get (None :: (nat \<times> nat \<times> nat) cache) 1000 = None"
    by (simp add: cache_get_def)
  note t = memoize_ttl[OF c example_run, simplified]
  from t have 1: "memoized_get_datasets to_datetime_mdy example_world 1000 None =
     ((Inr example_bundle, map snd cssegis_data @ [commits_url]), Some (1360, example_bundle))"
    by blast
  from t have hit: "\<forall>t2 w2. t2 < 1360 \<longrightarrow>
            memoized_get_datasets to_datetime_mdy w2 t2 (Some (1360, example_bundle)) =
              ((Inr example_bundle, []), Some (1360, example_bundle))"
    by blast
  then have 2: "memoized_get_datasets to_datetime_mdy example_world_no_metadata 1200
                  (Some (1360, example_bundle)) =
     ((Inr example_bundle, []), Some (1360, example_bundle))"
    by simp
  from t have miss: "\<forall>t2 w2. 1360 < t2 \<longrightarrow>
            fst (memoized_get_datasets to_datetime_mdy w2 t2 (Some (1360, example_bundle))) =
              get_datasets to_datetime_mdy w2 \<and>
            (\<forall>b2 req2. get_datasets to_datetime_mdy w2 = (Inr b2, req2) \<longrightarrow>
               snd (memoized_get_datasets to_datetime_mdy w2 t2 (Some (1360, example_bundle))) =
                 Some (t2 + 360, b2))"
    by blast
  have lt: "(1360::nat) < 1361" by simp
  from miss[rule_format, OF lt, of example_world] example_run
  have 3: "fst (memoized_get_datasets to_datetime_mdy example_world 1361 (Some (1360, example_bundle))) =
     get_datasets to_datetime_mdy example_world"
    and 4: "snd (memoized_get_datasets to_datetime_mdy example_world 1361 (Some (1360, example_bundle))) =
     Some (1361 + 360, example_bundle)"
    by blast+
  from 4 have 5: "snd (memoized_get_datasets to_datetime_mdy example_world 1361 (Some (1360, example_bundle))) =
     Some (1721, example_bundle)" by simp
  from c example_run 1 2 3 5 show ?thesis by blast
qed

end
